theory Spec2Isabelle
  imports Complex_Main "HOL-Library.Sublist" "HOL-Library.AList"
begin

section \<open>Quote-asset detection\<close>

text \<open>
  \<^verbatim>\<open>KNOWN_QUOTE_ASSETS\<close>: the priority-ordered list of quote assets, in the order of the
  source (stablecoins, major crypto quotes, fiats).
\<close>

definition KNOWN_QUOTE_ASSETS :: "string list" where
  "KNOWN_QUOTE_ASSETS =
    [''USDT'', ''FDUSD'', ''USDC'', ''TUSD'', ''BUSD'', ''USDP'', ''DAI'', ''EURI'', ''AEUR'',
     ''VAI'', ''IDRT'',
     ''BTC'', ''ETH'', ''BNB'', ''SOL'', ''XRP'', ''TRX'', ''DOGE'', ''DOT'',
     ''EUR'', ''TRY'', ''BRL'', ''JPY'', ''ZAR'', ''IDR'', ''RUB'', ''GBP'', ''AUD'', ''COP'',
     ''MXN'', ''ARS'', ''NGN'', ''UAH'', ''PLN'', ''RON'', ''KZT'', ''VND'']"

text \<open>\<^verbatim>\<open>symbol.endsWith(asset)\<close>: the asset is a suffix of the symbol.\<close>

definition endsWith :: "string \<Rightarrow> string \<Rightarrow> bool" where
  "endsWith symb asset = suffix asset symb"

text \<open>
  The \<^verbatim>\<open>for (const asset of KNOWN_QUOTE_ASSETS)\<close> loop of \<^verbatim>\<open>getQuoteAsset\<close>, as a
  recursion over the assets still to try; \<^verbatim>\<open>null\<close> is \<open>None\<close>.
\<close>

fun getQuoteAsset_loop :: "string list \<Rightarrow> string \<Rightarrow> string option" where
  "getQuoteAsset_loop [] symb = None"
| "getQuoteAsset_loop (asset # rest) symb =
     (if endsWith symb asset then Some asset else getQuoteAsset_loop rest symb)"

definition getQuoteAsset :: "string \<Rightarrow> string option" where
  "getQuoteAsset symb = getQuoteAsset_loop KNOWN_QUOTE_ASSETS symb"


section \<open>Data of the synchronisation service\<close>

text \<open>
  \<^verbatim>\<open>TickerData\<close>, with the fields the service reads or writes. A JavaScript number is a
  value of the type parameter \<open>'n\<close>; the host's \<^verbatim>\<open>parseFloat\<close> is a parameter \<open>pf\<close> of
  every operation that parses, and \<^verbatim>\<open>0\<close> is the zero of \<open>'n\<close>. An optional field that is
  absent or \<^verbatim>\<open>undefined\<close> is \<open>None\<close> (\<^verbatim>\<open>parseFloat\<close> never returns \<^verbatim>\<open>undefined\<close>). The
  descriptive optional fields of the interface (icon, name, market cap, ...) are never
  touched by the service and are left out.
\<close>

record 'n TickerData =
  symbol :: string
  price :: 'n
  volume :: 'n
  changePercent1h :: "'n option"
  changePercent4h :: "'n option"
  changePercent24h :: 'n

text \<open>
  \<^verbatim>\<open>BinanceTickerWS\<close>: one update of a stream message (fields \<^verbatim>\<open>s\<close>, \<^verbatim>\<open>c\<close>, \<^verbatim>\<open>v\<close>,
  \<^verbatim>\<open>q\<close>, \<^verbatim>\<open>P\<close>, \<^verbatim>\<open>e\<close>; the source calls the object \<^verbatim>\<open>item\<close>).
\<close>

record BinanceTickerWS =
  item_s :: string
  item_c :: string
  item_v :: string
  item_q :: string
  item_P :: string
  item_e :: "string option"

text \<open>
  \<^verbatim>\<open>message.data\<close> is one update or an array of updates; a frame either fails
  \<^verbatim>\<open>JSON.parse\<close> or is an envelope with the stream name and the data, which may be
  missing.
\<close>

datatype payload = Single BinanceTickerWS | Many "BinanceTickerWS list"

datatype frame = Unparsable | Envelope string "payload option"

text \<open>
  The REST bodies. An element of the 24-hour ticker array carries \<^verbatim>\<open>symbol\<close>,
  \<^verbatim>\<open>count\<close>, \<^verbatim>\<open>lastPrice\<close>, \<^verbatim>\<open>quoteVolume\<close>, \<^verbatim>\<open>priceChangePercent\<close>; an element of
  \<^verbatim>\<open>exchangeInfo.symbols\<close> carries \<^verbatim>\<open>symbol\<close> and \<^verbatim>\<open>status\<close>. The arrays are typed
  \<^verbatim>\<open>any\<close> in the source: an element is such an object (\<open>Some\<close>) or \<^verbatim>\<open>null\<close> (\<open>None\<close>), and
  reading a property of \<^verbatim>\<open>null\<close> throws a \<^verbatim>\<open>TypeError\<close>.
\<close>

record ticker24hr =
  t_symbol :: string
  t_count :: int
  lastPrice :: string
  quoteVolume :: string
  priceChangePercent :: string

record symbolInfo =
  i_symbol :: string
  i_status :: string

text \<open>
  What \<^verbatim>\<open>await res.json()\<close> followed by \<^verbatim>\<open>Array.isArray\<close> can give: the promise rejects,
  the value is not an array, or it is an array. For the exchange info, \<open>NotArray\<close> is
  \<^verbatim>\<open>exchangeInfoData.symbols\<close> not being an array.
\<close>

datatype 'a json_body = NotJson | NotArray | Array "'a list"

record 'a http_res =
  ok :: bool
  body :: "'a json_body"

text \<open>
  One origin's answer to the two parallel requests: \<^verbatim>\<open>Promise.all\<close> rejects (a network
  error), or both responses arrive.
\<close>

datatype origin_response =
  Rejected | Responses "ticker24hr option http_res" "symbolInfo option http_res"

text \<open>
  One window's answer in \<^verbatim>\<open>fetchDetailedStats\<close>, after
  \<^verbatim>\<open>.then(r => r.ok ? r.json() : null)\<close>: the promise rejects (network error or a body
  that is not JSON), the status is not ok (\<^verbatim>\<open>null\<close>), or the body is the ticker object,
  of which the code reads \<^verbatim>\<open>priceChangePercent\<close>.
\<close>

datatype stats_response = StatsRejected | StatsNotOk | StatsBody string

type_synonym addr = nat

text \<open>A callback is known by its identity: \<^verbatim>\<open>cb !== callback\<close> compares references.\<close>

type_synonym callback = nat

datatype readyState = CONNECTING | OPEN | CLOSING | CLOSED

text \<open>
  What the service does to the world, in order: HTTP requests, sockets, timers, and the
  calls of the subscribers' callbacks. A data callback receives \<^verbatim>\<open>new Map(this.tickerMap)\<close>:
  a copy of the association of symbols to record references, not of the records. A status
  callback receives the origin of the current endpoint URL; the effect records that URL
  (\<open>None\<close> is \<^verbatim>\<open>undefined\<close>, an index out of range). Console output is not modelled, and
  callbacks are observers: they neither throw nor call back into the service.
\<close>

datatype effect =
    HttpGet string
  | NewWebSocket "string option"
  | WsClose
  | SetTimeout nat rat
  | ClearTimeout nat
  | DataCallback callback "(string \<times> addr) list"
  | StatusCallback callback "string option"

text \<open>
  The fields of \<^verbatim>\<open>BinanceService\<close>. \<open>ws\<close> is the ready state of the socket that
  \<^verbatim>\<open>this.ws\<close> refers to, \<open>None\<close> for \<^verbatim>\<open>null\<close>. \<open>tickerMap\<close> is the \<^verbatim>\<open>Map\<close> in insertion
  order, from symbols to references; \<open>heap\<close> holds the record objects, \<open>nextAddr\<close> is the
  next fresh reference. \<open>timerSeq\<close> is the next timer handle of the host (handles are
  positive, hence truthy).
\<close>

record 'n service =
  ws :: "readyState option"
  subscribers :: "callback list"
  statusSubscribers :: "callback list"
  tickerMap :: "(string \<times> addr) list"
  reconnectAttempt :: nat
  reconnectTimeoutId :: "nat option"
  endpointIndex :: nat
  pendingFetches :: "string set"
  heap :: "addr \<Rightarrow> 'n TickerData"
  nextAddr :: addr
  timerSeq :: nat
  effects :: "effect list"

definition STREAMS :: string where
  "STREAMS = ''?streams=!ticker@arr/!ticker_1h@arr/!ticker_4h@arr''"

definition BASE_WS_URLS :: "string list" where
  "BASE_WS_URLS =
    [''wss://data-stream.binance.vision/stream'' @ STREAMS,
     ''wss://stream.binance.com:443/stream'' @ STREAMS,
     ''wss://stream.binance.com:9443/stream'' @ STREAMS,
     ''wss://data-stream.binance.com/stream'' @ STREAMS]"

definition maxReconnectDelay :: rat where
  "maxReconnectDelay = 10000"

text \<open>The record a new symbol of the stream starts from, and the service as constructed.\<close>

definition fresh_record :: "string \<Rightarrow> ('n::zero) TickerData" where
  "fresh_record symb =
     \<lparr>symbol = symb, price = 0, volume = 0, changePercent1h = None, changePercent4h = None,
      changePercent24h = 0\<rparr>"

definition init :: "('n::zero) service" where
  "init = \<lparr>ws = None, subscribers = [], statusSubscribers = [], tickerMap = [],
           reconnectAttempt = 0, reconnectTimeoutId = None, endpointIndex = 0,
           pendingFetches = {}, heap = (\<lambda>_. fresh_record []), nextAddr = 0, timerSeq = 1,
           effects = []\<rparr>"

section \<open>Notification\<close>

definition emit :: "effect list \<Rightarrow> 'n service \<Rightarrow> 'n service" where
  "emit es st = st\<lparr>effects := effects st @ es\<rparr>"

text \<open>\<^verbatim>\<open>notify\<close>: one copy of the map, handed to every data subscriber in order.\<close>

definition notify :: "'n service \<Rightarrow> 'n service" where
  "notify st = emit (map (\<lambda>cb. DataCallback cb (tickerMap st)) (subscribers st)) st"

text \<open>
  \<^verbatim>\<open>BASE_WS_URLS[i]\<close>, \<^verbatim>\<open>undefined\<close> out of range. With \<^verbatim>\<open>undefined\<close> the source would
  throw in \<^verbatim>\<open>emitStatus\<close>; the index is never out of range (\<open>endpointIndex_reachable\<close>).
\<close>

definition endpoint_url :: "nat \<Rightarrow> string option" where
  "endpoint_url i = (if i < length BASE_WS_URLS then Some (BASE_WS_URLS ! i) else None)"

definition emitStatus :: "callback option \<Rightarrow> 'n service \<Rightarrow> 'n service" where
  "emitStatus specificCallback st =
     (let fullUrl = endpoint_url (endpointIndex st);
          targets = (case specificCallback of Some cb \<Rightarrow> [cb] | None \<Rightarrow> statusSubscribers st)
      in emit (map (\<lambda>cb. StatusCallback cb fullUrl) targets) st)"

definition subscribe :: "callback \<Rightarrow> 'n service \<Rightarrow> 'n service" where
  "subscribe cb st =
     (let st1 = st\<lparr>subscribers := subscribers st @ [cb]\<rparr>
      in if tickerMap st1 \<noteq> [] then emit [DataCallback cb (tickerMap st1)] st1 else st1)"

text \<open>The function that \<^verbatim>\<open>subscribe(callback)\<close> returns.\<close>

definition unsubscribe :: "callback \<Rightarrow> 'n service \<Rightarrow> 'n service" where
  "unsubscribe callback st = st\<lparr>subscribers := filter (\<lambda>cb. cb \<noteq> callback) (subscribers st)\<rparr>"

definition subscribeStatus :: "callback \<Rightarrow> 'n service \<Rightarrow> 'n service" where
  "subscribeStatus cb st =
     emitStatus (Some cb) (st\<lparr>statusSubscribers := statusSubscribers st @ [cb]\<rparr>)"

text \<open>The function that \<^verbatim>\<open>subscribeStatus(callback)\<close> returns.\<close>

definition unsubscribeStatus :: "callback \<Rightarrow> 'n service \<Rightarrow> 'n service" where
  "unsubscribeStatus callback st =
     st\<lparr>statusSubscribers := filter (\<lambda>cb. cb \<noteq> callback) (statusSubscribers st)\<rparr>"

section \<open>Connection and reconnection\<close>

text \<open>
  \<^verbatim>\<open>Math.min(1000 * Math.pow(1.5, reconnectAttempt), maxReconnectDelay)\<close>. Where the
  minimum is its first argument (attempts 0 to 5) the power \<open>3\<^sup>n / 2\<^sup>n\<close> and its product
  with 1000 are doubles, so nothing is rounded, \<^verbatim>\<open>Math.pow\<close> being exact on such powers;
  from attempt 6 on the power is above 10, whatever its rounding (also when it is
  \<^verbatim>\<open>Infinity\<close>), and the minimum is 10000. So the delay is the rational number below.
\<close>

definition reconnect_delay :: "nat \<Rightarrow> rat" where
  "reconnect_delay attempt = min (1000 * (3 / 2) ^ attempt) maxReconnectDelay"

definition clear_pending_timer :: "'n service \<Rightarrow> 'n service" where
  "clear_pending_timer st =
     (case reconnectTimeoutId st of
        Some t \<Rightarrow> emit [ClearTimeout t] st
      | None \<Rightarrow> st)"

definition scheduleReconnect :: "'n service \<Rightarrow> 'n service" where
  "scheduleReconnect st =
     (let st1 = st\<lparr>endpointIndex := (endpointIndex st + 1) mod length BASE_WS_URLS\<rparr>;
          st2 = emitStatus None st1;
          delay = reconnect_delay (reconnectAttempt st2);
          st3 = st2\<lparr>reconnectAttempt := reconnectAttempt st2 + 1\<rparr>;
          st4 = clear_pending_timer st3;
          t = timerSeq st4
      in emit [SetTimeout t delay] (st4\<lparr>reconnectTimeoutId := Some t, timerSeq := t + 1\<rparr>))"

text \<open>
  \<^verbatim>\<open>connectWebSocket\<close>; \<open>throws\<close> says whether \<^verbatim>\<open>new WebSocket(url)\<close> throws. The
  handlers it installs are the four definitions after it.
\<close>

definition connectWebSocket :: "bool \<Rightarrow> 'n service \<Rightarrow> 'n service" where
  "connectWebSocket throws st =
     (if ws st = Some OPEN \<or> ws st = Some CONNECTING then st
      else
        let st1 = (clear_pending_timer st)\<lparr>reconnectTimeoutId := None\<rparr>;
            url = endpoint_url (endpointIndex st1);
            st2 = emitStatus None st1
        in if throws then scheduleReconnect st2
           else emit [NewWebSocket url] (st2\<lparr>ws := Some CONNECTING\<rparr>))"

definition onopen :: "'n service \<Rightarrow> 'n service" where
  "onopen st = emitStatus None (st\<lparr>reconnectAttempt := 0\<rparr>)"

definition onclose :: "'n service \<Rightarrow> 'n service" where
  "onclose st = scheduleReconnect (emitStatus None (st\<lparr>ws := None\<rparr>))"

text \<open>\<^verbatim>\<open>ws.close()\<close> on a socket that is not closed leaves it closing.\<close>

definition onerror :: "'n service \<Rightarrow> 'n service" where
  "onerror st =
     (case ws st of
        Some r \<Rightarrow> if r \<noteq> CLOSED then emit [WsClose] (st\<lparr>ws := Some CLOSING\<rparr>) else st
      | None \<Rightarrow> st)"

definition disconnect :: "'n service \<Rightarrow> 'n service" where
  "disconnect st =
     (let st1 = (clear_pending_timer st)\<lparr>reconnectTimeoutId := None\<rparr>
      in case ws st1 of
           Some r \<Rightarrow> emit [WsClose] (st1\<lparr>ws := None\<rparr>)
         | None \<Rightarrow> st1)"

section \<open>Stream messages\<close>

text \<open>\<^verbatim>\<open>str.includes(sub)\<close>: \<open>sub\<close> occurs in \<open>str\<close> as a contiguous block.\<close>

definition str_includes :: "string \<Rightarrow> string \<Rightarrow> bool" where
  "str_includes str sub = sublist sub str"

text \<open>The group-specific writes of the handler, on the record \<^verbatim>\<open>existing\<close>.\<close>

definition apply_group ::
  "(string \<Rightarrow> 'n) \<Rightarrow> bool \<Rightarrow> bool \<Rightarrow> bool \<Rightarrow> BinanceTickerWS \<Rightarrow> 'n TickerData \<Rightarrow> 'n TickerData" where
  "apply_group pf is24h is1h is4h item existing =
     (if is24h then
        existing\<lparr>price := pf (item_c item), volume := pf (item_q item),
                 changePercent24h := pf (item_P item)\<rparr>
      else if is1h then
        existing\<lparr>price := pf (item_c item), changePercent1h := Some (pf (item_P item))\<rparr>
      else if is4h then
        existing\<lparr>price := pf (item_c item), changePercent4h := Some (pf (item_P item))\<rparr>
      else existing)"

text \<open>
  The body of \<^verbatim>\<open>rawData.forEach\<close>. A record found in the map is written in place, at its
  reference; a symbol not found gets a new object. \<^verbatim>\<open>Map.set\<close> keeps the position of a
  key already there and appends a new one, as \<open>AList.update\<close> does.
\<close>

definition merge_item ::
  "(string \<Rightarrow> 'n) \<Rightarrow> bool \<Rightarrow> bool \<Rightarrow> bool \<Rightarrow> BinanceTickerWS \<Rightarrow> ('n::zero) service \<Rightarrow> 'n service" where
  "merge_item pf is24h is1h is4h item st =
     (let symb = item_s item
      in case map_of (tickerMap st) symb of
           Some a \<Rightarrow>
             st\<lparr>heap := (heap st)(a := apply_group pf is24h is1h is4h item (heap st a)),
                tickerMap := AList.update symb a (tickerMap st)\<rparr>
         | None \<Rightarrow>
             let a = nextAddr st
             in st\<lparr>heap := (heap st)(a := apply_group pf is24h is1h is4h item (fresh_record symb)),
                   nextAddr := a + 1,
                   tickerMap := AList.update symb a (tickerMap st)\<rparr>)"

definition rawData_of :: "payload \<Rightarrow> BinanceTickerWS list" where
  "rawData_of d = (case d of Single item \<Rightarrow> [item] | Many items \<Rightarrow> items)"

definition onmessage :: "(string \<Rightarrow> 'n) \<Rightarrow> frame \<Rightarrow> ('n::zero) service \<Rightarrow> 'n service" where
  "onmessage pf fr st =
     (case fr of
        Unparsable \<Rightarrow> st
      | Envelope streamName None \<Rightarrow> st
      | Envelope streamName (Some d) \<Rightarrow>
          let rawData = rawData_of d;
              is1h = str_includes streamName ''1h'';
              is4h = str_includes streamName ''4h'';
              is24h = (\<not> is1h \<and> \<not> is4h)
          in notify (fold (merge_item pf is24h is1h is4h) rawData st))"

section \<open>Snapshot loader\<close>

definition apiDomains :: "string list" where
  "apiDomains = [''https://data-api.binance.vision'', ''https://api.binance.com'',
                 ''https://api-gcp.binance.com'']"

definition snapshot_requests :: "string \<Rightarrow> 'n service \<Rightarrow> 'n service" where
  "snapshot_requests domain st =
     emit [HttpGet (domain @ ''/api/v3/ticker/24hr''),
           HttpGet (domain @ ''/api/v3/exchangeInfo?permissions=SPOT'')] st"

text \<open>
  The checks of one attempt, in the order of the source; \<open>None\<close> is a throw, which the
  \<^verbatim>\<open>catch\<close> of the loop turns into the next origin.
\<close>

definition origin_bodies ::
  "origin_response \<Rightarrow> (ticker24hr option list \<times> symbolInfo option list) option" where
  "origin_bodies r =
     (case r of
        Rejected \<Rightarrow> None
      | Responses tickerRes exchangeInfoRes \<Rightarrow>
          if \<not> ok tickerRes then None
          else if \<not> ok exchangeInfoRes then None
          else (case body tickerRes of
                  NotJson \<Rightarrow> None
                | tb \<Rightarrow>
                   (case body exchangeInfoRes of
                      NotJson \<Rightarrow> None
                    | eb \<Rightarrow>
                       (case tb of
                          Array tickerData \<Rightarrow>
                            (case eb of Array syms \<Rightarrow> Some (tickerData, syms) | _ \<Rightarrow> None)
                        | _ \<Rightarrow> None))))"

text \<open>
  The body of \<^verbatim>\<open>tickerData.forEach\<close> for an element that is an object: the strict
  filter, then a new record object.
\<close>

definition load_item ::
  "(string \<Rightarrow> 'n) \<Rightarrow> string set \<Rightarrow> ticker24hr \<Rightarrow> 'n service \<Rightarrow> 'n service" where
  "load_item pf tradingSymbols item st =
     (if t_symbol item \<notin> tradingSymbols then st
      else if t_count item = 0 then st
      else
        let a = nextAddr st
        in st\<lparr>heap := (heap st)(a :=
                 \<lparr>symbol = t_symbol item, price = pf (lastPrice item),
                  volume = pf (quoteVolume item), changePercent1h = None,
                  changePercent4h = None, changePercent24h = pf (priceChangePercent item)\<rparr>),
              nextAddr := a + 1,
              tickerMap := AList.update (t_symbol item) a (tickerMap st)\<rparr>)"

text \<open>
  \<^verbatim>\<open>exchangeInfoData.symbols.forEach\<close>, which collects the symbols whose status is
  \<^verbatim>\<open>TRADING\<close>; \<open>None\<close> is the throw at \<^verbatim>\<open>s.status\<close> for an element that is \<^verbatim>\<open>null\<close>.
\<close>

fun tradingSymbols_of :: "symbolInfo option list \<Rightarrow> string set option" where
  "tradingSymbols_of [] = Some {}"
| "tradingSymbols_of (None # rest) = None"
| "tradingSymbols_of (Some s # rest) =
     map_option (\<lambda>ts. if i_status s = ''TRADING'' then insert (i_symbol s) ts else ts)
       (tradingSymbols_of rest)"

text \<open>
  \<^verbatim>\<open>tickerData.forEach\<close>. \<open>Inr\<close> is the end of the array; \<open>Inl\<close> is the throw at
  \<^verbatim>\<open>item.symbol\<close> for an element that is \<^verbatim>\<open>null\<close>, with the service as the elements
  before it have left it: what they wrote into the map stays.
\<close>

fun load_loop ::
  "(string \<Rightarrow> 'n) \<Rightarrow> string set \<Rightarrow> ticker24hr option list \<Rightarrow> 'n service
     \<Rightarrow> 'n service + 'n service" where
  "load_loop pf tradingSymbols [] st = Inr st"
| "load_loop pf tradingSymbols (None # rest) st = Inl st"
| "load_loop pf tradingSymbols (Some item # rest) st =
     load_loop pf tradingSymbols rest (load_item pf tradingSymbols item st)"

text \<open>
  The \<^verbatim>\<open>try\<close> block of one origin, from the answers on. \<open>Inr\<close> is the success, after
  \<^verbatim>\<open>notify\<close>; \<open>Inl\<close> is a throw, which the \<^verbatim>\<open>catch\<close> turns into the next origin, with the
  service as the block has left it.
\<close>

definition snapshot_try ::
  "(string \<Rightarrow> 'n) \<Rightarrow> origin_response \<Rightarrow> 'n service \<Rightarrow> 'n service + 'n service" where
  "snapshot_try pf r st =
     (case origin_bodies r of
        None \<Rightarrow> Inl st
      | Some (tickerData, syms) \<Rightarrow>
          (case tradingSymbols_of syms of
             None \<Rightarrow> Inl st
           | Some tradingSymbols \<Rightarrow>
               (case load_loop pf tradingSymbols tickerData st of
                  Inl st1 \<Rightarrow> Inl st1
                | Inr st1 \<Rightarrow> Inr (notify st1))))"

text \<open>
  \<^verbatim>\<open>fetchInitialSnapshot\<close> is asynchronous. Up to its first \<^verbatim>\<open>await\<close> it sends the two
  requests to the first origin (\<open>fetchInitialSnapshot_begin\<close>). It resumes when the origin
  that it awaits answers (\<open>fetchInitialSnapshot_answer\<close>): the list holds that origin and
  those after it, \<open>r\<close> is its answer. After a success the method returns. After a failure
  it sends the requests of the next origin and awaits again; with no origin left it
  notifies. Other events can happen during each \<^verbatim>\<open>await\<close>.
\<close>

definition fetchInitialSnapshot_begin :: "'n service \<Rightarrow> 'n service" where
  "fetchInitialSnapshot_begin st =
     (case apiDomains of [] \<Rightarrow> notify st | domain # _ \<Rightarrow> snapshot_requests domain st)"

definition fetchInitialSnapshot_answer ::
  "(string \<Rightarrow> 'n) \<Rightarrow> origin_response \<Rightarrow> string list \<Rightarrow> 'n service \<Rightarrow> 'n service" where
  "fetchInitialSnapshot_answer pf r domains st =
     (case domains of
        [] \<Rightarrow> st
      | domain # rest \<Rightarrow>
         (case snapshot_try pf r st of
            Inr st' \<Rightarrow> st'
          | Inl st1 \<Rightarrow>
             (case rest of
                [] \<Rightarrow> notify st1
              | next_domain # _ \<Rightarrow> snapshot_requests next_domain st1)))"

text \<open>
  \<^verbatim>\<open>connect()\<close>: the snapshot method is called and not awaited, so only its part before
  the first \<^verbatim>\<open>await\<close> runs here; then \<^verbatim>\<open>connectWebSocket\<close>.
\<close>

definition connect :: "bool \<Rightarrow> 'n service \<Rightarrow> 'n service" where
  "connect throws st = connectWebSocket throws (fetchInitialSnapshot_begin st)"

section \<open>Backfill of the 1-hour and 4-hour changes\<close>

definition stats_url :: "string \<Rightarrow> string \<Rightarrow> string" where
  "stats_url symb window =
     ''https://data-api.binance.vision/api/v3/ticker'' @ ''?symbol='' @ symb @ ''&windowSize='' @ window"

text \<open>
  \<^verbatim>\<open>fetchDetailedStats\<close> up to its \<^verbatim>\<open>await\<close>: the in-flight guard and the two requests.
  \<open>True\<close> in the result says that the call went past the guard and will resume.
\<close>

definition fetchDetailedStats_begin :: "string \<Rightarrow> 'n service \<Rightarrow> bool \<times> 'n service" where
  "fetchDetailedStats_begin symb st =
     (if symb \<in> pendingFetches st then (False, st)
      else (True, emit [HttpGet (stats_url symb ''1h''), HttpGet (stats_url symb ''4h'')]
                   (st\<lparr>pendingFetches := insert symb (pendingFetches st)\<rparr>)))"

text \<open>
  The rest of \<^verbatim>\<open>fetchDetailedStats\<close>, from the \<^verbatim>\<open>await\<close> on: a rejected promise goes to
  the empty \<^verbatim>\<open>catch\<close>; otherwise the record is read from the map as it is now and written
  in place; \<^verbatim>\<open>finally\<close> releases the symbol. \<^verbatim>\<open>res1h\<close> is truthy exactly for a body.
\<close>

definition fetchDetailedStats_resume ::
  "(string \<Rightarrow> 'n) \<Rightarrow> string \<Rightarrow> stats_response \<Rightarrow> stats_response \<Rightarrow> 'n service \<Rightarrow> 'n service" where
  "fetchDetailedStats_resume pf symb res1h res4h st =
     (let st' =
        (if res1h = StatsRejected \<or> res4h = StatsRejected then st
         else
           case map_of (tickerMap st) symb of
             None \<Rightarrow> st
           | Some a \<Rightarrow>
               let item = heap st a;
                   (item1, updated1) =
                     (case res1h of
                        StatsBody p \<Rightarrow>
                          if changePercent1h item = None
                          then (item\<lparr>changePercent1h := Some (pf p)\<rparr>, True)
                          else (item, False)
                      | _ \<Rightarrow> (item, False));
                   (item2, updated2) =
                     (case res4h of
                        StatsBody p \<Rightarrow>
                          if changePercent4h item1 = None
                          then (item1\<lparr>changePercent4h := Some (pf p)\<rparr>, True)
                          else (item1, updated1)
                      | _ \<Rightarrow> (item1, updated1))
               in if updated2
                  then notify (st\<lparr>heap := (heap st)(a := item2),
                                  tickerMap := AList.update symb a (tickerMap st)\<rparr>)
                  else st)
      in st'\<lparr>pendingFetches := pendingFetches st' - {symb}\<rparr>)"

section \<open>The service as a transition system\<close>

text \<open>
  Everything that can happen to the service: calls of its public methods and of the
  functions they return, the resumption of its two asynchronous methods, the reconnect
  timer, and the events of the socket. A socket event carries what the host did to the
  socket before it called the handler. \<open>SnapshotAnswers\<close> is one origin answering a
  snapshot loader that awaits it; it carries the origins still to try, the answering one
  first, which is the position of that loader in its loop. \<open>DetailedStatsCalled\<close> and
  \<open>DetailedStatsAnswers\<close> are the two halves of \<^verbatim>\<open>fetchDetailedStats\<close>, before and after
  its \<^verbatim>\<open>await\<close>. Any events can happen between the two halves of an asynchronous method.
\<close>

datatype event =
    Connect bool
  | Disconnect
  | SnapshotAnswers "string list" origin_response
  | DetailedStatsCalled string
  | DetailedStatsAnswers string stats_response stats_response
  | TimerFires bool
  | SocketOpens
  | SocketMessage frame
  | SocketCloses
  | SocketErrors readyState
  | Subscribe callback
  | Unsubscribe callback
  | SubscribeStatus callback
  | UnsubscribeStatus callback

definition set_readyState :: "readyState \<Rightarrow> 'n service \<Rightarrow> 'n service" where
  "set_readyState r st = st\<lparr>ws := map_option (\<lambda>_. r) (ws st)\<rparr>"

fun step :: "(string \<Rightarrow> 'n) \<Rightarrow> event \<Rightarrow> ('n::zero) service \<Rightarrow> 'n service" where
  "step pf (Connect throws) st = connect throws st"
| "step pf Disconnect st = disconnect st"
| "step pf (SnapshotAnswers domains r) st = fetchInitialSnapshot_answer pf r domains st"
| "step pf (DetailedStatsCalled symb) st = snd (fetchDetailedStats_begin symb st)"
| "step pf (DetailedStatsAnswers symb res1h res4h) st = fetchDetailedStats_resume pf symb res1h res4h st"
| "step pf (TimerFires throws) st = connectWebSocket throws st"
| "step pf SocketOpens st = onopen (set_readyState OPEN st)"
| "step pf (SocketMessage fr) st = onmessage pf fr st"
| "step pf SocketCloses st = onclose (set_readyState CLOSED st)"
| "step pf (SocketErrors r) st = onerror (set_readyState r st)"
| "step pf (Subscribe cb) st = subscribe cb st"
| "step pf (Unsubscribe cb) st = unsubscribe cb st"
| "step pf (SubscribeStatus cb) st = subscribeStatus cb st"
| "step pf (UnsubscribeStatus cb) st = unsubscribeStatus cb st"

text \<open>A run: the events in the order in which they happen.\<close>

definition run :: "(string \<Rightarrow> 'n) \<Rightarrow> event list \<Rightarrow> ('n::zero) service \<Rightarrow> 'n service" where
  "run pf evs st = fold (step pf) evs st"

text \<open>The record that the live map holds for a symbol, read through its reference.\<close>

definition record_of :: "'n service \<Rightarrow> string \<Rightarrow> 'n TickerData option" where
  "record_of st symb = map_option (heap st) (map_of (tickerMap st) symb)"


section \<open>Invariants of the heap\<close>

text \<open>
  The live map is well formed: its keys are distinct, distinct symbols hold distinct
  record objects, and every reference in it has been allocated.
\<close>

definition refs_ok :: "'n service \<Rightarrow> bool" where
  "refs_ok st \<longleftrightarrow>
     distinct (map fst (tickerMap st)) \<and> distinct (map snd (tickerMap st)) \<and>
     (\<forall>a \<in> set (map snd (tickerMap st)). a < nextAddr st)"

text \<open>
  Every record reachable through a map that was handed to a subscriber has been
  allocated: its reference is below \<open>nextAddr\<close>.
\<close>

definition delivered_allocated :: "'n service \<Rightarrow> bool" where
  "delivered_allocated st \<longleftrightarrow>
     (\<forall>e \<in> set (effects st).
        case e of
          DataCallback cb m \<Rightarrow> (\<forall>a \<in> set (map snd m). a < nextAddr st)
        | _ \<Rightarrow> True)"

text \<open>
  From \<open>st\<close> to \<open>st'\<close> no reference is reused, and every data callback made on the way
  received the live map of \<open>st'\<close>.
\<close>

definition hands_out_live_map :: "'n service \<Rightarrow> 'n service \<Rightarrow> bool" where
  "hands_out_live_map st st' \<longleftrightarrow>
     nextAddr st \<le> nextAddr st' \<and>
     (\<forall>x \<in> set (effects st').
        x \<in> set (effects st) \<or>
        (case x of DataCallback cb m \<Rightarrow> m = tickerMap st' | _ \<Rightarrow> True))"

text \<open>
  An origin's answer that makes the attempt throw before the loop over the tickers: at
  one of the checks, or at a \<^verbatim>\<open>null\<close> element of the status listing.
\<close>

definition fails_before_loop :: "origin_response \<Rightarrow> bool" where
  "fails_before_loop r =
     (case origin_bodies r of
        None \<Rightarrow> True
      | Some (tickerData, syms) \<Rightarrow> tradingSymbols_of syms = None)"


section \<open>Concrete inputs and runs\<close>

text \<open>
  The concrete runs take rational numbers for \<open>'n\<close> and, for \<open>pf\<close>, the value of an
  unsigned decimal literal (digits, then optionally a point and digits). The theorems
  about the service hold for every \<open>pf\<close>.
\<close>

definition digit_of :: "char \<Rightarrow> nat" where
  "digit_of ch =
     (if ch = CHR ''1'' then 1 else if ch = CHR ''2'' then 2 else if ch = CHR ''3'' then 3
      else if ch = CHR ''4'' then 4 else if ch = CHR ''5'' then 5 else if ch = CHR ''6'' then 6
      else if ch = CHR ''7'' then 7 else if ch = CHR ''8'' then 8 else if ch = CHR ''9'' then 9
      else 0)"

fun digits_value :: "nat \<Rightarrow> string \<Rightarrow> nat" where
  "digits_value acc [] = acc"
| "digits_value acc (ch # rest) = digits_value (10 * acc + digit_of ch) rest"

definition decimal :: "string \<Rightarrow> rat" where
  "decimal lit =
     (let int_part = takeWhile (\<lambda>ch. ch \<noteq> CHR ''.'') lit;
          frac_part = drop 1 (dropWhile (\<lambda>ch. ch \<noteq> CHR ''.'') lit)
      in of_nat (digits_value 0 int_part) + of_nat (digits_value 0 frac_part) / 10 ^ length frac_part)"

text \<open>The service after \<^verbatim>\<open>connect()\<close> and the open event of its socket.\<close>

definition connected_service :: "rat service" where
  "connected_service = run decimal [Connect False, SocketOpens] init"

text \<open>
  \<open>k\<close> failed attempts in a row: each time the reconnect timer fires, a socket is made,
  and it closes.
\<close>

definition failed_attempts :: "nat \<Rightarrow> event list" where
  "failed_attempts k = concat (replicate k [TimerFires False, SocketCloses])"

text \<open>
  The service with the data subscriber 7 after \<^verbatim>\<open>connect()\<close>: the snapshot loader awaits
  the first origin, the socket is being opened.
\<close>

definition loading_service :: "rat service" where
  "loading_service = run decimal [Subscribe 7, Connect False] init"

text \<open>An origin that answers both requests with a status that is not ok.\<close>

definition origin_not_ok :: origin_response where
  "origin_not_ok = Responses \<lparr>ok = False, body = NotJson\<rparr> \<lparr>ok = False, body = NotJson\<rparr>"

text \<open>
  The events of a snapshot loader with nothing else in between: the origins answer one
  after the other, each answer finding the loader at that origin.
\<close>

fun loader_events :: "string list \<Rightarrow> origin_response list \<Rightarrow> event list" where
  "loader_events (domain # rest) (r # rs) = SnapshotAnswers (domain # rest) r # loader_events rest rs"
| "loader_events domains rs = []"

text \<open>
  A 1-hour stream message that sets the 1-hour change of \<^verbatim>\<open>ETHUSDT\<close> to 0.9, and the
  service that has received it.
\<close>

definition eth_1h_frame :: frame where
  "eth_1h_frame =
     Envelope ''!ticker_1h@arr''
       (Some (Many [\<lparr>item_s = ''ETHUSDT'', item_c = ''3000'', item_v = ''10'', item_q = ''30000'',
                     item_P = ''0.9'', item_e = Some ''1hTicker''\<rparr>]))"

definition eth_streamed :: "rat service" where
  "eth_streamed = run decimal [SocketMessage eth_1h_frame] init"

text \<open>
  An origin that answers with the one trading symbol \<^verbatim>\<open>BTCUSDT\<close> (price 50000, volume
  \<open>10\<^sup>9\<close>, 24-hour change 2.5), the same answer with a \<^verbatim>\<open>null\<close> element after that
  ticker, a 1-hour stream message for the symbol (price 50010, 1-hour change 0.4), the
  service that has loaded the snapshot from the first origin, and the same with a data
  subscriber 7 registered before.
\<close>

definition btc_snapshot :: origin_response where
  "btc_snapshot =
     Responses
       \<lparr>ok = True,
        body = Array [Some \<lparr>t_symbol = ''BTCUSDT'', t_count = 120, lastPrice = ''50000'',
                            quoteVolume = ''1000000000'', priceChangePercent = ''2.5''\<rparr>]\<rparr>
       \<lparr>ok = True, body = Array [Some \<lparr>i_symbol = ''BTCUSDT'', i_status = ''TRADING''\<rparr>]\<rparr>"

definition btc_then_null :: origin_response where
  "btc_then_null =
     Responses
       \<lparr>ok = True,
        body = Array [Some \<lparr>t_symbol = ''BTCUSDT'', t_count = 120, lastPrice = ''50000'',
                            quoteVolume = ''1000000000'', priceChangePercent = ''2.5''\<rparr>,
                      None]\<rparr>
       \<lparr>ok = True, body = Array [Some \<lparr>i_symbol = ''BTCUSDT'', i_status = ''TRADING''\<rparr>]\<rparr>"

definition btc_1h_frame :: frame where
  "btc_1h_frame =
     Envelope ''!ticker_1h@arr''
       (Some (Many [\<lparr>item_s = ''BTCUSDT'', item_c = ''50010'', item_v = ''3'', item_q = ''150030'',
                     item_P = ''0.4'', item_e = Some ''1hTicker''\<rparr>]))"



section \<open>Properties of the quote-asset detection\<close>

lemma getQuoteAsset_loop_None:
  "getQuoteAsset_loop as symb = None \<longleftrightarrow> (\<forall>a \<in> set as. \<not> suffix a symb)"
  by (induction as) (auto simp: endsWith_def)

lemma getQuoteAsset_loop_Some:
  "getQuoteAsset_loop as symb = Some a \<longleftrightarrow>
     (\<exists>i < length as. as ! i = a \<and> suffix a symb \<and> (\<forall>j < i. \<not> suffix (as ! j) symb))"
proof (induction as)
  case Nil
  show ?case by simp
next
  case (Cons b bs)
  show ?case
  proof (cases "suffix b symb")
    case True
    have "(\<exists>i < length (b # bs). (b # bs) ! i = a \<and> suffix a symb \<and>
             (\<forall>j < i. \<not> suffix ((b # bs) ! j) symb)) \<longleftrightarrow> b = a"
    proof
      assume "\<exists>i < length (b # bs). (b # bs) ! i = a \<and> suffix a symb \<and>
                (\<forall>j < i. \<not> suffix ((b # bs) ! j) symb)"
      then obtain i where i: "(b # bs) ! i = a" "\<forall>j < i. \<not> suffix ((b # bs) ! j) symb"
        by blast
      have "i = 0"
      proof (rule ccontr)
        assume "i \<noteq> 0"
        then have "\<not> suffix ((b # bs) ! 0) symb" using i(2) by blast
        with True show False by simp
      qed
      with i(1) show "b = a" by simp
    next
      assume "b = a"
      with True have "(b # bs) ! 0 = a \<and> suffix a symb \<and>
          (\<forall>j < 0. \<not> suffix ((b # bs) ! j) symb)" by simp
      then show "\<exists>i < length (b # bs). (b # bs) ! i = a \<and> suffix a symb \<and>
                (\<forall>j < i. \<not> suffix ((b # bs) ! j) symb)" by (intro exI[of _ 0]) simp
    qed
    with True show ?thesis by (simp add: endsWith_def)
  next
    case False
    have "(\<exists>i < length (b # bs). (b # bs) ! i = a \<and> suffix a symb \<and>
             (\<forall>j < i. \<not> suffix ((b # bs) ! j) symb)) \<longleftrightarrow>
          (\<exists>i < length bs. bs ! i = a \<and> suffix a symb \<and> (\<forall>j < i. \<not> suffix (bs ! j) symb))"
      (is "?L \<longleftrightarrow> ?R")
    proof
      assume ?L
      then obtain i where i: "i < length (b # bs)" "(b # bs) ! i = a" "suffix a symb"
        "\<forall>j < i. \<not> suffix ((b # bs) ! j) symb" by blast
      from i(2,3) False have "i \<noteq> 0" by (cases i) auto
      then obtain k where k: "i = Suc k" by (cases i) auto
      have "\<forall>j < k. \<not> suffix (bs ! j) symb"
      proof (intro allI impI)
        fix j assume "j < k"
        then have "Suc j < i" using k by simp
        with i(4) have "\<not> suffix ((b # bs) ! Suc j) symb" by blast
        then show "\<not> suffix (bs ! j) symb" by simp
      qed
      with i k show ?R by (intro exI[of _ k]) simp
    next
      assume ?R
      then obtain k where k: "k < length bs" "bs ! k = a" "suffix a symb"
        "\<forall>j < k. \<not> suffix (bs ! j) symb" by blast
      have "\<forall>j < Suc k. \<not> suffix ((b # bs) ! j) symb"
      proof (intro allI impI)
        fix j assume "j < Suc k"
        then show "\<not> suffix ((b # bs) ! j) symb"
          using False k(4) by (cases j) auto
      qed
      with k show ?L by (intro exI[of _ "Suc k"]) simp
    qed
    with False Cons.IH show ?thesis by (simp add: endsWith_def)
  qed
qed

text \<open>
  Claim C9. For every symb, \<^verbatim>\<open>getQuoteAsset\<close> returns the first element of the
  priority-ordered list that is a suffix of the symb (the element at the least index
  whose asset is a suffix), and \<^verbatim>\<open>null\<close> exactly when no element of the list is a
  suffix; \<^verbatim>\<open>getQuoteAsset("ETHBTC")\<close> is \<^verbatim>\<open>"BTC"\<close> and
  \<^verbatim>\<open>getQuoteAsset("UNKNOWNXYZ")\<close> is \<^verbatim>\<open>null\<close>.
\<close>

theorem getQuoteAsset_first_suffix:
  "(getQuoteAsset symb = None \<longleftrightarrow> (\<forall>a \<in> set KNOWN_QUOTE_ASSETS. \<not> suffix a symb))
   \<and> (\<forall>a. getQuoteAsset symb = Some a \<longleftrightarrow>
         (\<exists>i < length KNOWN_QUOTE_ASSETS. KNOWN_QUOTE_ASSETS ! i = a \<and> suffix a symb
            \<and> (\<forall>j < i. \<not> suffix (KNOWN_QUOTE_ASSETS ! j) symb)))
   \<and> getQuoteAsset ''ETHBTC'' = Some ''BTC''
   \<and> getQuoteAsset ''UNKNOWNXYZ'' = None"
proof -
  have ex1: "getQuoteAsset ''ETHBTC'' = Some ''BTC''"
    by (simp add: getQuoteAsset_def KNOWN_QUOTE_ASSETS_def endsWith_def suffix_to_prefix)
  have ex2: "getQuoteAsset ''UNKNOWNXYZ'' = None"
    by (simp add: getQuoteAsset_def KNOWN_QUOTE_ASSETS_def endsWith_def suffix_to_prefix)
  show ?thesis
    unfolding getQuoteAsset_def[of symb]
    using ex1 ex2 by (simp add: getQuoteAsset_loop_None getQuoteAsset_loop_Some)
qed

theorem getQuoteAsset_first_suffix_witness:
  "getQuoteAsset ''BTCEUR'' = Some ''EUR''
   \<and> (\<exists>i < length KNOWN_QUOTE_ASSETS. KNOWN_QUOTE_ASSETS ! i = ''EUR'' \<and> suffix ''EUR'' ''BTCEUR''
        \<and> (\<forall>j < i. \<not> suffix (KNOWN_QUOTE_ASSETS ! j) ''BTCEUR''))"
proof -
  have e: "getQuoteAsset ''BTCEUR'' = Some ''EUR''"
    by (simp add: getQuoteAsset_def KNOWN_QUOTE_ASSETS_def endsWith_def suffix_to_prefix)
  from getQuoteAsset_first_suffix [of "''BTCEUR''"] e show ?thesis by blast
qed

section \<open>Field projections of the basic operations\<close>

lemma emit_fields [simp]:
  "ws (emit es st) = ws st"
  "subscribers (emit es st) = subscribers st"
  "statusSubscribers (emit es st) = statusSubscribers st"
  "tickerMap (emit es st) = tickerMap st"
  "reconnectAttempt (emit es st) = reconnectAttempt st"
  "reconnectTimeoutId (emit es st) = reconnectTimeoutId st"
  "endpointIndex (emit es st) = endpointIndex st"
  "pendingFetches (emit es st) = pendingFetches st"
  "heap (emit es st) = heap st"
  "nextAddr (emit es st) = nextAddr st"
  "timerSeq (emit es st) = timerSeq st"
  "effects (emit es st) = effects st @ es"
  by (simp_all add: emit_def)

lemma emit_Nil [simp]: "emit [] st = st"
  by (simp add: emit_def)

lemma notify_fields [simp]:
  "ws (notify st) = ws st"
  "subscribers (notify st) = subscribers st"
  "statusSubscribers (notify st) = statusSubscribers st"
  "tickerMap (notify st) = tickerMap st"
  "reconnectAttempt (notify st) = reconnectAttempt st"
  "reconnectTimeoutId (notify st) = reconnectTimeoutId st"
  "endpointIndex (notify st) = endpointIndex st"
  "pendingFetches (notify st) = pendingFetches st"
  "heap (notify st) = heap st"
  "nextAddr (notify st) = nextAddr st"
  "timerSeq (notify st) = timerSeq st"
  by (simp_all add: notify_def)

lemma effects_notify:
  "effects (notify st) = effects st @ map (\<lambda>cb. DataCallback cb (tickerMap st)) (subscribers st)"
  by (simp add: notify_def)

lemma emitStatus_fields [simp]:
  "ws (emitStatus c st) = ws st"
  "subscribers (emitStatus c st) = subscribers st"
  "statusSubscribers (emitStatus c st) = statusSubscribers st"
  "tickerMap (emitStatus c st) = tickerMap st"
  "reconnectAttempt (emitStatus c st) = reconnectAttempt st"
  "reconnectTimeoutId (emitStatus c st) = reconnectTimeoutId st"
  "endpointIndex (emitStatus c st) = endpointIndex st"
  "pendingFetches (emitStatus c st) = pendingFetches st"
  "heap (emitStatus c st) = heap st"
  "nextAddr (emitStatus c st) = nextAddr st"
  "timerSeq (emitStatus c st) = timerSeq st"
  by (simp_all add: emitStatus_def Let_def)

lemma effects_emitStatus:
  "effects (emitStatus c st) =
     effects st @ map (\<lambda>cb. StatusCallback cb (endpoint_url (endpointIndex st)))
                    (case c of Some cb \<Rightarrow> [cb] | None \<Rightarrow> statusSubscribers st)"
  by (simp add: emitStatus_def Let_def)

lemma clear_pending_timer_fields [simp]:
  "ws (clear_pending_timer st) = ws st"
  "subscribers (clear_pending_timer st) = subscribers st"
  "statusSubscribers (clear_pending_timer st) = statusSubscribers st"
  "tickerMap (clear_pending_timer st) = tickerMap st"
  "reconnectAttempt (clear_pending_timer st) = reconnectAttempt st"
  "reconnectTimeoutId (clear_pending_timer st) = reconnectTimeoutId st"
  "endpointIndex (clear_pending_timer st) = endpointIndex st"
  "pendingFetches (clear_pending_timer st) = pendingFetches st"
  "heap (clear_pending_timer st) = heap st"
  "nextAddr (clear_pending_timer st) = nextAddr st"
  "timerSeq (clear_pending_timer st) = timerSeq st"
  by (simp_all add: clear_pending_timer_def split: option.splits)

lemma scheduleReconnect_fields [simp]:
  "ws (scheduleReconnect st) = ws st"
  "subscribers (scheduleReconnect st) = subscribers st"
  "statusSubscribers (scheduleReconnect st) = statusSubscribers st"
  "tickerMap (scheduleReconnect st) = tickerMap st"
  "reconnectAttempt (scheduleReconnect st) = reconnectAttempt st + 1"
  "reconnectTimeoutId (scheduleReconnect st) = Some (timerSeq st)"
  "endpointIndex (scheduleReconnect st) = (endpointIndex st + 1) mod length BASE_WS_URLS"
  "pendingFetches (scheduleReconnect st) = pendingFetches st"
  "heap (scheduleReconnect st) = heap st"
  "nextAddr (scheduleReconnect st) = nextAddr st"
  "timerSeq (scheduleReconnect st) = timerSeq st + 1"
  by (simp_all add: scheduleReconnect_def Let_def)

lemma snapshot_requests_fields [simp]:
  "ws (snapshot_requests d st) = ws st"
  "subscribers (snapshot_requests d st) = subscribers st"
  "statusSubscribers (snapshot_requests d st) = statusSubscribers st"
  "tickerMap (snapshot_requests d st) = tickerMap st"
  "reconnectAttempt (snapshot_requests d st) = reconnectAttempt st"
  "reconnectTimeoutId (snapshot_requests d st) = reconnectTimeoutId st"
  "endpointIndex (snapshot_requests d st) = endpointIndex st"
  "pendingFetches (snapshot_requests d st) = pendingFetches st"
  "heap (snapshot_requests d st) = heap st"
  "nextAddr (snapshot_requests d st) = nextAddr st"
  "timerSeq (snapshot_requests d st) = timerSeq st"
  by (simp_all add: snapshot_requests_def)

lemma effects_scheduleReconnect:
  "effects (scheduleReconnect st) =
     effects st
     @ map (\<lambda>cb. StatusCallback cb (endpoint_url ((endpointIndex st + 1) mod length BASE_WS_URLS)))
           (statusSubscribers st)
     @ (case reconnectTimeoutId st of Some t \<Rightarrow> [ClearTimeout t] | None \<Rightarrow> [])
     @ [SetTimeout (timerSeq st) (reconnect_delay (reconnectAttempt st))]"
  by (simp add: scheduleReconnect_def Let_def effects_emitStatus clear_pending_timer_def
           split: option.splits)

lemma length_BASE_WS_URLS: "length BASE_WS_URLS = 4"
  by (simp add: BASE_WS_URLS_def)

lemma reconnect_delay_values:
  "reconnect_delay 0 = 1000" "reconnect_delay 1 = 1500" "reconnect_delay 2 = 2250"
  "reconnect_delay 3 = 3375" "reconnect_delay 4 = 10125 / 2" "reconnect_delay 5 = 30375 / 4"
  by (simp_all add: reconnect_delay_def maxReconnectDelay_def power_numeral_reduce eval_nat_numeral)

lemma reconnect_delay_cap: "6 \<le> n \<Longrightarrow> reconnect_delay n = 10000"
proof -
  assume n: "6 \<le> n"
  have "(3 / 2 :: rat) ^ 6 \<le> (3 / 2) ^ n"
    using n by (intro power_increasing) simp_all
  moreover have "(10 :: rat) \<le> (3 / 2) ^ 6" by (simp add: power_numeral_reduce eval_nat_numeral)
  ultimately have "(10 :: rat) \<le> (3 / 2) ^ n" by linarith
  then show ?thesis by (simp add: reconnect_delay_def maxReconnectDelay_def min_def)
qed

lemma reconnect_delay_le: "reconnect_delay n \<le> 10000"
  by (simp add: reconnect_delay_def maxReconnectDelay_def)

lemma connected_service_eq:
  "connected_service =
     init\<lparr>ws := Some OPEN,
          effects := [HttpGet ''https://data-api.binance.vision/api/v3/ticker/24hr'',
                      HttpGet ''https://data-api.binance.vision/api/v3/exchangeInfo?permissions=SPOT'',
                      NewWebSocket (Some (''wss://data-stream.binance.vision/stream'' @ STREAMS))]\<rparr>"
  by (simp add: connected_service_def run_def connect_def fetchInitialSnapshot_begin_def
        apiDomains_def snapshot_requests_def connectWebSocket_def init_def emit_def
        clear_pending_timer_def emitStatus_def endpoint_url_def BASE_WS_URLS_def onopen_def
        set_readyState_def Let_def)

section \<open>Reconnection: failover and backoff\<close>

lemma set_readyState_fields [simp]:
  "subscribers (set_readyState r st) = subscribers st"
  "statusSubscribers (set_readyState r st) = statusSubscribers st"
  "tickerMap (set_readyState r st) = tickerMap st"
  "reconnectAttempt (set_readyState r st) = reconnectAttempt st"
  "reconnectTimeoutId (set_readyState r st) = reconnectTimeoutId st"
  "endpointIndex (set_readyState r st) = endpointIndex st"
  "pendingFetches (set_readyState r st) = pendingFetches st"
  "heap (set_readyState r st) = heap st"
  "nextAddr (set_readyState r st) = nextAddr st"
  "timerSeq (set_readyState r st) = timerSeq st"
  "effects (set_readyState r st) = effects st"
  by (simp_all add: set_readyState_def)

lemma reconnect_delay_first: "map reconnect_delay [0, 1, 2, 3] = [1000, 1500, 2250, 3375]"
  by (simp add: reconnect_delay_def maxReconnectDelay_def power_numeral_reduce eval_nat_numeral)

lemma onclose_counter:
  "reconnectAttempt (onclose st) = reconnectAttempt st + 1"
  "endpointIndex (onclose st) = (endpointIndex st + 1) mod length BASE_WS_URLS"
  by (simp_all add: onclose_def)

lemma connectWebSocket_counter:
  "reconnectAttempt st \<le> reconnectAttempt (connectWebSocket throws st)"
  by (simp add: connectWebSocket_def Let_def)

lemma fetchInitialSnapshot_begin_fields [simp]:
  "ws (fetchInitialSnapshot_begin st) = ws st"
  "subscribers (fetchInitialSnapshot_begin st) = subscribers st"
  "statusSubscribers (fetchInitialSnapshot_begin st) = statusSubscribers st"
  "tickerMap (fetchInitialSnapshot_begin st) = tickerMap st"
  "reconnectAttempt (fetchInitialSnapshot_begin st) = reconnectAttempt st"
  "reconnectTimeoutId (fetchInitialSnapshot_begin st) = reconnectTimeoutId st"
  "endpointIndex (fetchInitialSnapshot_begin st) = endpointIndex st"
  "pendingFetches (fetchInitialSnapshot_begin st) = pendingFetches st"
  "heap (fetchInitialSnapshot_begin st) = heap st"
  "nextAddr (fetchInitialSnapshot_begin st) = nextAddr st"
  "timerSeq (fetchInitialSnapshot_begin st) = timerSeq st"
  by (simp_all add: fetchInitialSnapshot_begin_def apiDomains_def)

lemma merge_item_frame [simp]:
  "ws (merge_item pf a b c item st) = ws st"
  "subscribers (merge_item pf a b c item st) = subscribers st"
  "statusSubscribers (merge_item pf a b c item st) = statusSubscribers st"
  "reconnectAttempt (merge_item pf a b c item st) = reconnectAttempt st"
  "reconnectTimeoutId (merge_item pf a b c item st) = reconnectTimeoutId st"
  "endpointIndex (merge_item pf a b c item st) = endpointIndex st"
  "pendingFetches (merge_item pf a b c item st) = pendingFetches st"
  "timerSeq (merge_item pf a b c item st) = timerSeq st"
  "effects (merge_item pf a b c item st) = effects st"
  by (simp_all add: merge_item_def Let_def split: option.splits)

lemma fold_merge_item_frame [simp]:
  "ws (fold (merge_item pf a b c) items st) = ws st"
  "subscribers (fold (merge_item pf a b c) items st) = subscribers st"
  "statusSubscribers (fold (merge_item pf a b c) items st) = statusSubscribers st"
  "reconnectAttempt (fold (merge_item pf a b c) items st) = reconnectAttempt st"
  "reconnectTimeoutId (fold (merge_item pf a b c) items st) = reconnectTimeoutId st"
  "endpointIndex (fold (merge_item pf a b c) items st) = endpointIndex st"
  "pendingFetches (fold (merge_item pf a b c) items st) = pendingFetches st"
  "timerSeq (fold (merge_item pf a b c) items st) = timerSeq st"
  "effects (fold (merge_item pf a b c) items st) = effects st"
  by (induction items arbitrary: st; simp)+

lemma load_item_frame [simp]:
  "ws (load_item pf ts item st) = ws st"
  "subscribers (load_item pf ts item st) = subscribers st"
  "statusSubscribers (load_item pf ts item st) = statusSubscribers st"
  "reconnectAttempt (load_item pf ts item st) = reconnectAttempt st"
  "reconnectTimeoutId (load_item pf ts item st) = reconnectTimeoutId st"
  "endpointIndex (load_item pf ts item st) = endpointIndex st"
  "pendingFetches (load_item pf ts item st) = pendingFetches st"
  "timerSeq (load_item pf ts item st) = timerSeq st"
  "effects (load_item pf ts item st) = effects st"
  by (simp_all add: load_item_def Let_def)

lemma fold_load_item_frame [simp]:
  "ws (fold (load_item pf ts) items st) = ws st"
  "subscribers (fold (load_item pf ts) items st) = subscribers st"
  "statusSubscribers (fold (load_item pf ts) items st) = statusSubscribers st"
  "reconnectAttempt (fold (load_item pf ts) items st) = reconnectAttempt st"
  "reconnectTimeoutId (fold (load_item pf ts) items st) = reconnectTimeoutId st"
  "endpointIndex (fold (load_item pf ts) items st) = endpointIndex st"
  "pendingFetches (fold (load_item pf ts) items st) = pendingFetches st"
  "timerSeq (fold (load_item pf ts) items st) = timerSeq st"
  "effects (fold (load_item pf ts) items st) = effects st"
  by (induction items arbitrary: st; simp)+

text \<open>
  Whatever an origin answers, the service after the attempt is the service before it with
  some ticker elements loaded, and after the whole step it is that service, or that
  service notified, or that service with the requests of the next origin sent.
\<close>

lemma load_loop_shape:
  "\<exists>items'. load_loop pf ts items st = Inl (fold (load_item pf ts) items' st)
            \<or> load_loop pf ts items st = Inr (fold (load_item pf ts) items' st)"
proof (induction pf ts items st rule: load_loop.induct)
  case (1 pf ts st)
  have "load_loop pf ts [] st = Inr (fold (load_item pf ts) [] st)" by simp
  then show ?case by blast
next
  case (2 pf ts rest st)
  have "load_loop pf ts (None # rest) st = Inl (fold (load_item pf ts) [] st)" by simp
  then show ?case by blast
next
  case (3 pf ts item rest st)
  then obtain items' where
    "load_loop pf ts rest (load_item pf ts item st)
       = Inl (fold (load_item pf ts) items' (load_item pf ts item st))
     \<or> load_loop pf ts rest (load_item pf ts item st)
       = Inr (fold (load_item pf ts) items' (load_item pf ts item st))"
    by blast
  then have "load_loop pf ts (Some item # rest) st = Inl (fold (load_item pf ts) (item # items') st)
     \<or> load_loop pf ts (Some item # rest) st = Inr (fold (load_item pf ts) (item # items') st)"
    by simp
  then show ?case by blast
qed

lemma snapshot_try_shape:
  "\<exists>ts items'. snapshot_try pf r st = Inl (fold (load_item pf ts) items' st)
               \<or> snapshot_try pf r st = Inr (notify (fold (load_item pf ts) items' st))"
proof (cases "origin_bodies r")
  case None
  then have "snapshot_try pf r st = Inl (fold (load_item pf {}) [] st)"
    by (simp add: snapshot_try_def)
  then show ?thesis by blast
next
  case (Some bodies)
  obtain tickerData syms where b: "bodies = (tickerData, syms)" by (cases bodies)
  show ?thesis
  proof (cases "tradingSymbols_of syms")
    case None
    with Some b have "snapshot_try pf r st = Inl (fold (load_item pf {}) [] st)"
      by (simp add: snapshot_try_def)
    then show ?thesis by blast
  next
    case (Some ts)
    from load_loop_shape[of pf ts tickerData st] obtain items' where
      "load_loop pf ts tickerData st = Inl (fold (load_item pf ts) items' st)
       \<or> load_loop pf ts tickerData st = Inr (fold (load_item pf ts) items' st)"
      by blast
    with \<open>origin_bodies r = Some bodies\<close> b Some
    have "snapshot_try pf r st = Inl (fold (load_item pf ts) items' st)
          \<or> snapshot_try pf r st = Inr (notify (fold (load_item pf ts) items' st))"
      by (auto simp: snapshot_try_def)
    then show ?thesis by blast
  qed
qed

lemma fetchInitialSnapshot_answer_shape:
  "\<exists>ts items'.
      fetchInitialSnapshot_answer pf r ds st = fold (load_item pf ts) items' st
    \<or> fetchInitialSnapshot_answer pf r ds st = notify (fold (load_item pf ts) items' st)
    \<or> (\<exists>d. fetchInitialSnapshot_answer pf r ds st
              = snapshot_requests d (fold (load_item pf ts) items' st))"
proof (cases ds)
  case Nil
  then have "fetchInitialSnapshot_answer pf r ds st = fold (load_item pf {}) [] st"
    by (simp add: fetchInitialSnapshot_answer_def)
  then show ?thesis by blast
next
  case (Cons domain rest)
  from snapshot_try_shape[of pf r st] obtain ts items' where
    t: "snapshot_try pf r st = Inl (fold (load_item pf ts) items' st)
        \<or> snapshot_try pf r st = Inr (notify (fold (load_item pf ts) items' st))"
    by blast
  from t Cons have
    "fetchInitialSnapshot_answer pf r ds st = notify (fold (load_item pf ts) items' st)
    \<or> (\<exists>d. fetchInitialSnapshot_answer pf r ds st
              = snapshot_requests d (fold (load_item pf ts) items' st))"
    by (cases rest) (auto simp: fetchInitialSnapshot_answer_def)
  then show ?thesis by blast
qed

lemma fetchInitialSnapshot_answer_frame [simp]:
  "ws (fetchInitialSnapshot_answer pf r ds st) = ws st"
  "subscribers (fetchInitialSnapshot_answer pf r ds st) = subscribers st"
  "statusSubscribers (fetchInitialSnapshot_answer pf r ds st) = statusSubscribers st"
  "reconnectAttempt (fetchInitialSnapshot_answer pf r ds st) = reconnectAttempt st"
  "reconnectTimeoutId (fetchInitialSnapshot_answer pf r ds st) = reconnectTimeoutId st"
  "endpointIndex (fetchInitialSnapshot_answer pf r ds st) = endpointIndex st"
  "pendingFetches (fetchInitialSnapshot_answer pf r ds st) = pendingFetches st"
  "timerSeq (fetchInitialSnapshot_answer pf r ds st) = timerSeq st"
  using fetchInitialSnapshot_answer_shape[of pf r ds st] by auto

lemma fetchDetailedStats_resume_counter:
  "reconnectAttempt (fetchDetailedStats_resume pf symb r1 r4 st) = reconnectAttempt st"
  by (simp add: fetchDetailedStats_resume_def Let_def split: option.splits stats_response.splits)

lemma onmessage_counter:
  "reconnectAttempt (onmessage pf fr st) = reconnectAttempt st"
  by (simp add: onmessage_def Let_def split: frame.splits option.splits)

lemma step_counter:
  "e \<noteq> SocketOpens \<Longrightarrow> reconnectAttempt st \<le> reconnectAttempt (step pf e st)"
proof (cases e)
  case (Connect throws)
  have "reconnectAttempt (fetchInitialSnapshot_begin st) \<le>
          reconnectAttempt (connectWebSocket throws (fetchInitialSnapshot_begin st))"
    by (rule connectWebSocket_counter)
  with Connect show ?thesis by (simp add: connect_def)
next
  case Disconnect
  then show ?thesis by (simp add: disconnect_def Let_def split: option.splits)
next
  case (SnapshotAnswers ds r)
  then show ?thesis by simp
next
  case (DetailedStatsCalled symb)
  then show ?thesis by (simp add: fetchDetailedStats_begin_def)
next
  case (DetailedStatsAnswers symb r1 r4)
  then show ?thesis by (simp add: fetchDetailedStats_resume_counter)
next
  case (TimerFires throws)
  then show ?thesis by (simp add: connectWebSocket_counter)
next
  case SocketOpens
  assume "e \<noteq> SocketOpens"
  with SocketOpens show ?thesis by simp
next
  case (SocketMessage fr)
  then show ?thesis by (simp add: onmessage_counter)
next
  case SocketCloses
  then show ?thesis by (simp add: onclose_counter)
next
  case (SocketErrors r)
  then show ?thesis by (simp add: onerror_def set_readyState_def split: option.splits)
next
  case (Subscribe cb)
  then show ?thesis by (simp add: subscribe_def Let_def)
next
  case (Unsubscribe cb)
  then show ?thesis by (simp add: unsubscribe_def)
next
  case (SubscribeStatus cb)
  then show ?thesis by (simp add: subscribeStatus_def)
next
  case (UnsubscribeStatus cb)
  then show ?thesis by (simp add: unsubscribeStatus_def)
qed

lemma failed_attempt_pair:
  "reconnectAttempt (step pf SocketCloses (step pf (TimerFires False) st)) = reconnectAttempt st + 1"
  "endpointIndex (step pf SocketCloses (step pf (TimerFires False) st)) =
     (endpointIndex st + 1) mod length BASE_WS_URLS"
  by (simp_all add: onclose_counter set_readyState_def connectWebSocket_def Let_def)

lemma failed_attempts_run:
  "reconnectAttempt (run pf (failed_attempts k) st) = reconnectAttempt st + k \<and>
   endpointIndex (run pf (failed_attempts k) st) = (endpointIndex st + k) mod length BASE_WS_URLS"
  if "endpointIndex st < length BASE_WS_URLS"
  using that
proof (induction k arbitrary: st)
  case 0
  then show ?case by (simp add: failed_attempts_def run_def)
next
  case (Suc k)
  define st1 where "st1 = step pf SocketCloses (step pf (TimerFires False) st)"
  have r: "run pf (failed_attempts (Suc k)) st = run pf (failed_attempts k) st1"
    by (simp add: failed_attempts_def run_def st1_def)
  have a1: "reconnectAttempt st1 = reconnectAttempt st + 1"
    unfolding st1_def by (rule failed_attempt_pair)
  have a2: "endpointIndex st1 = (endpointIndex st + 1) mod length BASE_WS_URLS"
    unfolding st1_def by (rule failed_attempt_pair)
  have lt: "endpointIndex st1 < length BASE_WS_URLS"
    unfolding a2 by (simp add: length_BASE_WS_URLS)
  from Suc.IH[OF lt] show ?case
    unfolding r a1 a2 by (simp add: mod_simps)
qed

text \<open>
  Claim C4. Every reconnect scheduling advances the endpoint index by one modulo the
  length of the endpoint list, so the next attempt never uses the index of the attempt
  that failed; the timer that it arms has the delay \<open>min (1000 \<sqdot> 1.5\<^sup>n) 10000\<close>
  milliseconds for the attempt count \<open>n\<close> before the increment, which gives 1000, 1500,
  2250, 3375 for \<open>n = 0, 1, 2, 3\<close> and 10000 from \<open>n = 6\<close> on; over a run of \<open>k\<close> failed
  attempts the counter grows by \<open>k\<close> and the index by \<open>k\<close> modulo the length; the open
  handler sets the counter to zero, and no other event of the service lowers it.
\<close>

theorem reconnect_failover_and_backoff:
  "endpointIndex (scheduleReconnect st) = (endpointIndex st + 1) mod length BASE_WS_URLS
   \<and> endpointIndex (scheduleReconnect st) \<noteq> endpointIndex st
   \<and> last (effects (scheduleReconnect st)) =
       SetTimeout (timerSeq st) (min (1000 * (3 / 2) ^ reconnectAttempt st) 10000)
   \<and> reconnectAttempt (scheduleReconnect st) = reconnectAttempt st + 1
   \<and> map reconnect_delay [0, 1, 2, 3] = [1000, 1500, 2250, 3375]
   \<and> (\<forall>n \<ge> 6. reconnect_delay n = 10000)
   \<and> (\<forall>n. reconnect_delay n \<le> 10000)
   \<and> (\<forall>k. endpointIndex st < length BASE_WS_URLS \<longrightarrow>
          reconnectAttempt (run pf (failed_attempts k) st) = reconnectAttempt st + k
          \<and> endpointIndex (run pf (failed_attempts k) st) = (endpointIndex st + k) mod length BASE_WS_URLS)
   \<and> reconnectAttempt (step pf SocketOpens st) = 0
   \<and> (\<forall>e. e \<noteq> SocketOpens \<longrightarrow> reconnectAttempt st \<le> reconnectAttempt (step pf e st))"
proof -
  have c1: "endpointIndex (scheduleReconnect st) = (endpointIndex st + 1) mod length BASE_WS_URLS"
    by simp
  have "(endpointIndex st + 1) mod length BASE_WS_URLS \<noteq> endpointIndex st"
    unfolding length_BASE_WS_URLS by presburger
  then have c2: "endpointIndex (scheduleReconnect st) \<noteq> endpointIndex st"
    by simp
  have c3: "last (effects (scheduleReconnect st)) =
       SetTimeout (timerSeq st) (min (1000 * (3 / 2) ^ reconnectAttempt st) 10000)"
    by (simp add: effects_scheduleReconnect reconnect_delay_def maxReconnectDelay_def)
  have c4: "reconnectAttempt (scheduleReconnect st) = reconnectAttempt st + 1"
    by simp
  have c6: "\<forall>n \<ge> 6. reconnect_delay n = 10000"
    by (simp add: reconnect_delay_cap)
  have c7: "\<forall>n. reconnect_delay n \<le> 10000"
    by (simp add: reconnect_delay_le)
  have c8: "\<forall>k. endpointIndex st < length BASE_WS_URLS \<longrightarrow>
          reconnectAttempt (run pf (failed_attempts k) st) = reconnectAttempt st + k
          \<and> endpointIndex (run pf (failed_attempts k) st) = (endpointIndex st + k) mod length BASE_WS_URLS"
    using failed_attempts_run[of st pf] by blast
  have c9: "reconnectAttempt (step pf SocketOpens st) = 0"
    by (simp add: onopen_def)
  have c10: "\<forall>e. e \<noteq> SocketOpens \<longrightarrow> reconnectAttempt st \<le> reconnectAttempt (step pf e st)"
    using step_counter[of _ st pf] by blast
  show ?thesis
    by (intro conjI) (fact c1 c2 c3 c4 reconnect_delay_first c6 c7 c8 c9 c10)+
qed

theorem reconnect_failover_and_backoff_witness:
  "reconnect_delay 7 = 10000
   \<and> reconnectAttempt (run decimal (failed_attempts 3) connected_service) = 3
   \<and> endpointIndex (run decimal (failed_attempts 3) connected_service) = 3
   \<and> reconnectAttempt (step decimal SocketOpens (run decimal (failed_attempts 3) connected_service)) = 0
   \<and> reconnectAttempt connected_service
        \<le> reconnectAttempt (step decimal SocketCloses connected_service)"
proof -
  have i: "endpointIndex connected_service = 0" and a: "reconnectAttempt connected_service = 0"
    by (simp_all add: connected_service_eq init_def)
  have lt: "endpointIndex connected_service < length BASE_WS_URLS"
    by (simp add: i length_BASE_WS_URLS)
  have ne: "SocketCloses \<noteq> SocketOpens" by simp
  note t = reconnect_failover_and_backoff
  from t [of connected_service decimal] lt
  have r: "reconnectAttempt (run decimal (failed_attempts 3) connected_service) = 3"
    "endpointIndex (run decimal (failed_attempts 3) connected_service) = 3"
    by (simp_all add: i a length_BASE_WS_URLS)
  from t [of connected_service decimal] ne
  have m: "reconnectAttempt connected_service
        \<le> reconnectAttempt (step decimal SocketCloses connected_service)"
    by blast
  from t [of "run decimal (failed_attempts 3) connected_service" decimal]
  have z: "reconnectAttempt (step decimal SocketOpens
             (run decimal (failed_attempts 3) connected_service)) = 0"
    by blast
  from t [of connected_service decimal] have "reconnect_delay 7 = 10000" by simp
  with r m z show ?thesis by blast
qed

section \<open>The guard of the connection\<close>

text \<open>
  Claim C5 says that \<^verbatim>\<open>connect()\<close> is a no-op whenever the socket is connecting or
  open. It is not: \<^verbatim>\<open>connect()\<close> calls \<^verbatim>\<open>fetchInitialSnapshot()\<close> before the guarded
  \<^verbatim>\<open>connectWebSocket()\<close>, so on the open service reached by \<^verbatim>\<open>connect()\<close> and the open
  event, a second \<^verbatim>\<open>connect()\<close> changes the state: it sends the two snapshot requests.
\<close>

theorem connect_while_open_sends_requests:
  "ws connected_service = Some OPEN
   \<and> connect False connected_service \<noteq> connected_service
   \<and> effects (connect False connected_service) =
       effects connected_service
       @ [HttpGet ''https://data-api.binance.vision/api/v3/ticker/24hr'',
          HttpGet ''https://data-api.binance.vision/api/v3/exchangeInfo?permissions=SPOT'']"
proof -
  have w: "ws connected_service = Some OPEN"
    by (simp add: connected_service_eq init_def)
  have e: "effects (connect False connected_service) =
       effects connected_service
       @ [HttpGet ''https://data-api.binance.vision/api/v3/ticker/24hr'',
          HttpGet ''https://data-api.binance.vision/api/v3/exchangeInfo?permissions=SPOT'']"
    by (simp add: connect_def connectWebSocket_def w fetchInitialSnapshot_begin_def apiDomains_def
          snapshot_requests_def)
  have "effects (connect False connected_service) \<noteq> effects connected_service"
    unfolding e by simp
  then have "connect False connected_service \<noteq> connected_service"
    by auto
  with w e show ?thesis by blast
qed

text \<open>
  Claim C5, amended. Whenever the socket is connecting or open, \<^verbatim>\<open>connectWebSocket()\<close>
  (which is also what the reconnect timer calls) is a no-op: the state, with its effects,
  is unchanged, so there is no new connection attempt and no status callback. The public
  \<^verbatim>\<open>connect()\<close> then does one thing only: it sends the two snapshot requests to the
  first origin.
\<close>

theorem connectWebSocket_guard:
  assumes "ws st = Some CONNECTING \<or> ws st = Some OPEN"
  shows "connectWebSocket throws st = st
         \<and> step pf (TimerFires throws) st = st
         \<and> connect throws st =
             st\<lparr>effects := effects st
                  @ [HttpGet ''https://data-api.binance.vision/api/v3/ticker/24hr'',
                     HttpGet ''https://data-api.binance.vision/api/v3/exchangeInfo?permissions=SPOT'']\<rparr>"
  using assms
  by (auto simp: connect_def connectWebSocket_def fetchInitialSnapshot_begin_def apiDomains_def
        snapshot_requests_def emit_def)

theorem connectWebSocket_guard_witness:
  "ws connected_service = Some OPEN
   \<and> connectWebSocket False connected_service = connected_service
   \<and> step decimal (TimerFires True) connected_service = connected_service"
proof -
  have w: "ws connected_service = Some OPEN"
    by (simp add: connected_service_eq init_def)
  then have h: "ws connected_service = Some CONNECTING \<or> ws connected_service = Some OPEN"
    by simp
  from connectWebSocket_guard [OF h, of False decimal] connectWebSocket_guard [OF h, of True decimal] w
  show ?thesis by blast
qed

section \<open>Subscriber registries\<close>

lemma length_filter_neq: "length (filter (\<lambda>c. c \<noteq> x) xs) + count_list xs x = length xs"
  by (induction xs) auto

lemma count_list_filter_neq:
  "count_list (filter (\<lambda>c. c \<noteq> x) xs) y = (if y = x then 0 else count_list xs y)"
  by (induction xs) auto

text \<open>
  Claim C6 says that unsubscribing removes exactly one registration and leaves the other
  registrations of the same callback. With callback 7 registered twice, in either
  registry, one call of the returned function leaves none.
\<close>

theorem unsubscribe_removes_both_registrations:
  "count_list (subscribers (subscribe 7 (subscribe 7 (init :: rat service)))) 7 = 2
   \<and> count_list (subscribers (unsubscribe 7 (subscribe 7 (subscribe 7 (init :: rat service))))) 7 = 0
   \<and> count_list (statusSubscribers (subscribeStatus 7 (subscribeStatus 7 (init :: rat service)))) 7 = 2
   \<and> count_list (statusSubscribers
        (unsubscribeStatus 7 (subscribeStatus 7 (subscribeStatus 7 (init :: rat service))))) 7 = 0"
  by (simp add: subscribe_def unsubscribe_def subscribeStatus_def unsubscribeStatus_def init_def
        Let_def)

text \<open>
  Claim C6, amended. In both registries, the function returned by a subscribe call
  removes every registration of its callback, compared by identity, and keeps the
  registrations of every other callback, in their order: the registry shrinks by the
  number of registrations of that callback (by exactly one when it was registered once),
  and the other registry is untouched.
\<close>

theorem unsubscribe_removes_callback:
  "subscribers (unsubscribe cb st) = filter (\<lambda>c. c \<noteq> cb) (subscribers st)
   \<and> count_list (subscribers (unsubscribe cb st)) cb = 0
   \<and> (\<forall>c. c \<noteq> cb \<longrightarrow>
         count_list (subscribers (unsubscribe cb st)) c = count_list (subscribers st) c)
   \<and> length (subscribers (unsubscribe cb st)) + count_list (subscribers st) cb
       = length (subscribers st)
   \<and> statusSubscribers (unsubscribe cb st) = statusSubscribers st
   \<and> statusSubscribers (unsubscribeStatus cb st) = filter (\<lambda>c. c \<noteq> cb) (statusSubscribers st)
   \<and> count_list (statusSubscribers (unsubscribeStatus cb st)) cb = 0
   \<and> (\<forall>c. c \<noteq> cb \<longrightarrow>
         count_list (statusSubscribers (unsubscribeStatus cb st)) c
           = count_list (statusSubscribers st) c)
   \<and> length (statusSubscribers (unsubscribeStatus cb st)) + count_list (statusSubscribers st) cb
       = length (statusSubscribers st)
   \<and> subscribers (unsubscribeStatus cb st) = subscribers st"
  by (simp add: unsubscribe_def unsubscribeStatus_def count_list_filter_neq length_filter_neq)

theorem unsubscribe_removes_callback_witness:
  "subscribers (unsubscribe 7 (subscribe 8 (subscribe 7 (init :: rat service)))) = [8]
   \<and> count_list (subscribers (unsubscribe 7 (subscribe 8 (subscribe 7 (init :: rat service))))) 8
       = count_list (subscribers (subscribe 8 (subscribe 7 (init :: rat service)))) 8"
proof -
  have ne: "(8 :: nat) \<noteq> 7" by simp
  from unsubscribe_removes_callback [of 7 "subscribe 8 (subscribe 7 (init :: rat service))"] ne
  have "count_list (subscribers (unsubscribe 7 (subscribe 8 (subscribe 7 (init :: rat service))))) 8
       = count_list (subscribers (subscribe 8 (subscribe 7 (init :: rat service)))) 8"
    by blast
  moreover have "subscribers (unsubscribe 7 (subscribe 8 (subscribe 7 (init :: rat service)))) = [8]"
    by (simp add: subscribe_def unsubscribe_def init_def Let_def)
  ultimately show ?thesis by blast
qed

section \<open>Runs\<close>

lemma run_snoc: "run pf (evs @ [e]) st = step pf e (run pf evs st)"
  by (simp add: run_def)

lemma run_Cons: "run pf (e # evs) st = run pf evs (step pf e st)"
  by (simp add: run_def)

section \<open>Backfill for a symbol that the map does not hold\<close>

lemma eth_called_streamed:
  "run decimal [DetailedStatsCalled ''ETHUSDT'', SocketMessage eth_1h_frame]
       (subscribe 7 connected_service) =
     connected_service
       \<lparr>subscribers := [7], pendingFetches := {''ETHUSDT''},
        tickerMap := [(''ETHUSDT'', 0)], nextAddr := 1,
        heap := (heap init)(0 :=
          \<lparr>symbol = ''ETHUSDT'', price = 3000, volume = 0, changePercent1h = Some (9 / 10),
           changePercent4h = None, changePercent24h = 0\<rparr>),
        effects := effects connected_service
          @ [HttpGet (stats_url ''ETHUSDT'' ''1h''), HttpGet (stats_url ''ETHUSDT'' ''4h''),
             DataCallback 7 [(''ETHUSDT'', 0)]]\<rparr>"
  by (simp add: run_def connected_service_eq init_def subscribe_def fetchDetailedStats_begin_def
        eth_1h_frame_def onmessage_def rawData_of_def str_includes_def sublist_code
        merge_item_def apply_group_def fresh_record_def decimal_def digit_of_def notify_def
        emit_def Let_def)

text \<open>
  Claim C10 says that a call of \<^verbatim>\<open>fetchDetailedStats\<close> for a symbol that the map does
  not hold, and that is not in flight, leaves the map unchanged and fires no
  notification. The method reads the map only after its \<^verbatim>\<open>await\<close>: here \<^verbatim>\<open>ETHUSDT\<close> is
  absent and not in flight at the call, a stream message creates its record during the
  \<^verbatim>\<open>await\<close>, and the resumption then writes the 4-hour change into that record and
  calls the subscriber.
\<close>

theorem fetchDetailedStats_symbol_arrives_during_await:
  "map_of (tickerMap (subscribe 7 connected_service)) ''ETHUSDT'' = None
   \<and> ''ETHUSDT'' \<notin> pendingFetches (subscribe 7 connected_service)
   \<and> map_option changePercent4h
        (record_of (run decimal [DetailedStatsCalled ''ETHUSDT'', SocketMessage eth_1h_frame]
                      (subscribe 7 connected_service)) ''ETHUSDT'') = Some None
   \<and> map_option changePercent4h
        (record_of (run decimal [DetailedStatsCalled ''ETHUSDT'', SocketMessage eth_1h_frame,
                                 DetailedStatsAnswers ''ETHUSDT'' (StatsBody ''1.1'')
                                   (StatsBody ''2.2'')]
                      (subscribe 7 connected_service)) ''ETHUSDT'') = Some (Some (11 / 5))
   \<and> effects (run decimal [DetailedStatsCalled ''ETHUSDT'', SocketMessage eth_1h_frame,
                            DetailedStatsAnswers ''ETHUSDT'' (StatsBody ''1.1'')
                              (StatsBody ''2.2'')]
                 (subscribe 7 connected_service))
       = effects (run decimal [DetailedStatsCalled ''ETHUSDT'', SocketMessage eth_1h_frame]
                    (subscribe 7 connected_service))
         @ [DataCallback 7 [(''ETHUSDT'', 0)]]"
proof -
  define st2 where "st2 = run decimal [DetailedStatsCalled ''ETHUSDT'', SocketMessage eth_1h_frame]
                            (subscribe 7 connected_service)"
  have r: "run decimal [DetailedStatsCalled ''ETHUSDT'', SocketMessage eth_1h_frame,
                        DetailedStatsAnswers ''ETHUSDT'' (StatsBody ''1.1'') (StatsBody ''2.2'')]
             (subscribe 7 connected_service)
           = fetchDetailedStats_resume decimal ''ETHUSDT'' (StatsBody ''1.1'') (StatsBody ''2.2'') st2"
    by (simp add: run_def st2_def)
  note e = eth_called_streamed[folded st2_def]
  have a: "map_of (tickerMap (subscribe 7 connected_service)) ''ETHUSDT'' = None"
    "''ETHUSDT'' \<notin> pendingFetches (subscribe 7 connected_service)"
    by (simp_all add: subscribe_def connected_service_eq init_def Let_def)
  have b: "map_option changePercent4h (record_of st2 ''ETHUSDT'') = Some None"
    unfolding e by (simp add: record_of_def)
  have c: "map_option changePercent4h
             (record_of (fetchDetailedStats_resume decimal ''ETHUSDT'' (StatsBody ''1.1'')
                           (StatsBody ''2.2'') st2) ''ETHUSDT'') = Some (Some (11 / 5))"
    unfolding e
    by (simp add: record_of_def fetchDetailedStats_resume_def decimal_def digit_of_def Let_def)
  have d: "effects (fetchDetailedStats_resume decimal ''ETHUSDT'' (StatsBody ''1.1'')
                      (StatsBody ''2.2'') st2)
           = effects st2 @ [DataCallback 7 [(''ETHUSDT'', 0)]]"
    unfolding e
    by (simp add: fetchDetailedStats_resume_def effects_notify Let_def)
  from a b c d show ?thesis unfolding r st2_def[symmetric] by blast
qed

text \<open>
  Claim C10, amended. A call of \<^verbatim>\<open>fetchDetailedStats\<close> for a symbol that is not in
  flight only marks the symbol and sends its two requests. When the method resumes and
  the map does not hold the symbol at that moment, whatever happened during the
  \<^verbatim>\<open>await\<close>, the resumption leaves the map and the records as they are, calls no
  subscriber, and removes the symbol from the in-flight set, so that a later call for the
  symbol passes the guard. Every resumption, also one that writes, ends with the symbol
  out of the in-flight set.
\<close>

theorem fetchDetailedStats_absent_symbol:
  assumes absent: "map_of (tickerMap st) symb = None"
  shows "fetchDetailedStats_resume pf symb res1h res4h st =
           st\<lparr>pendingFetches := pendingFetches st - {symb}\<rparr>
         \<and> fst (fetchDetailedStats_begin symb (fetchDetailedStats_resume pf symb res1h res4h st))
         \<and> symb \<notin> pendingFetches (fetchDetailedStats_resume pf symb res1h res4h st1)
         \<and> (symb \<notin> pendingFetches st0 \<longrightarrow>
              step pf (DetailedStatsCalled symb) st0 =
                emit [HttpGet (stats_url symb ''1h''), HttpGet (stats_url symb ''4h'')]
                  (st0\<lparr>pendingFetches := insert symb (pendingFetches st0)\<rparr>))
         \<and> (\<forall>evs. map_of (tickerMap (run pf (DetailedStatsCalled symb # evs) st0)) symb = None \<longrightarrow>
              run pf (DetailedStatsCalled symb # evs @ [DetailedStatsAnswers symb res1h res4h]) st0 =
                (run pf (DetailedStatsCalled symb # evs) st0)
                  \<lparr>pendingFetches :=
                     pendingFetches (run pf (DetailedStatsCalled symb # evs) st0) - {symb}\<rparr>)"
proof -
  have r: "fetchDetailedStats_resume pf symb res1h res4h st' =
             st'\<lparr>pendingFetches := pendingFetches st' - {symb}\<rparr>"
    if "map_of (tickerMap st') symb = None" for st' :: "'a service"
    using that by (simp add: fetchDetailedStats_resume_def)
  have c1: "fetchDetailedStats_resume pf symb res1h res4h st =
           st\<lparr>pendingFetches := pendingFetches st - {symb}\<rparr>"
    by (rule r[OF absent])
  have c2: "fst (fetchDetailedStats_begin symb (fetchDetailedStats_resume pf symb res1h res4h st))"
    unfolding c1 by (simp add: fetchDetailedStats_begin_def)
  have c3: "symb \<notin> pendingFetches (fetchDetailedStats_resume pf symb res1h res4h st1)"
    by (simp add: fetchDetailedStats_resume_def Let_def split: option.splits stats_response.splits)
  have c4: "symb \<notin> pendingFetches st0 \<longrightarrow>
              step pf (DetailedStatsCalled symb) st0 =
                emit [HttpGet (stats_url symb ''1h''), HttpGet (stats_url symb ''4h'')]
                  (st0\<lparr>pendingFetches := insert symb (pendingFetches st0)\<rparr>)"
    by (simp add: fetchDetailedStats_begin_def)
  have c5: "\<forall>evs. map_of (tickerMap (run pf (DetailedStatsCalled symb # evs) st0)) symb = None \<longrightarrow>
              run pf (DetailedStatsCalled symb # evs @ [DetailedStatsAnswers symb res1h res4h]) st0 =
                (run pf (DetailedStatsCalled symb # evs) st0)
                  \<lparr>pendingFetches :=
                     pendingFetches (run pf (DetailedStatsCalled symb # evs) st0) - {symb}\<rparr>"
  proof (intro allI impI)
    fix evs
    assume a: "map_of (tickerMap (run pf (DetailedStatsCalled symb # evs) st0)) symb = None"
    have "run pf (DetailedStatsCalled symb # evs @ [DetailedStatsAnswers symb res1h res4h]) st0
          = fetchDetailedStats_resume pf symb res1h res4h
              (run pf (DetailedStatsCalled symb # evs) st0)"
      using run_snoc[of pf "DetailedStatsCalled symb # evs"
                        "DetailedStatsAnswers symb res1h res4h" st0] by simp
    with r[OF a] show "run pf (DetailedStatsCalled symb # evs @ [DetailedStatsAnswers symb res1h res4h]) st0 =
                (run pf (DetailedStatsCalled symb # evs) st0)
                  \<lparr>pendingFetches :=
                     pendingFetches (run pf (DetailedStatsCalled symb # evs) st0) - {symb}\<rparr>"
      by simp
  qed
  from c1 c2 c3 c4 c5 show ?thesis by blast
qed

theorem fetchDetailedStats_absent_symbol_witness:
  "map_of (tickerMap (run decimal [DetailedStatsCalled ''ETHUSDT'', SocketMessage btc_1h_frame]
                        (subscribe 7 connected_service))) ''ETHUSDT'' = None
   \<and> run decimal [DetailedStatsCalled ''ETHUSDT'', SocketMessage btc_1h_frame,
                   DetailedStatsAnswers ''ETHUSDT'' (StatsBody ''1.1'') (StatsBody ''2.2'')]
        (subscribe 7 connected_service)
      = (run decimal [DetailedStatsCalled ''ETHUSDT'', SocketMessage btc_1h_frame]
           (subscribe 7 connected_service))
          \<lparr>pendingFetches :=
             pendingFetches (run decimal [DetailedStatsCalled ''ETHUSDT'', SocketMessage btc_1h_frame]
                               (subscribe 7 connected_service)) - {''ETHUSDT''}\<rparr>
   \<and> ''ETHUSDT'' \<notin> pendingFetches
        (run decimal [DetailedStatsCalled ''ETHUSDT'', SocketMessage btc_1h_frame,
                      DetailedStatsAnswers ''ETHUSDT'' (StatsBody ''1.1'') (StatsBody ''2.2'')]
           (subscribe 7 connected_service))"
proof -
  define st2 where "st2 = run decimal [DetailedStatsCalled ''ETHUSDT'', SocketMessage btc_1h_frame]
                            (subscribe 7 connected_service)"
  have t: "tickerMap st2 = [(''BTCUSDT'', 0)]"
    unfolding st2_def
    by (simp add: run_def connected_service_eq init_def subscribe_def fetchDetailedStats_begin_def
          btc_1h_frame_def onmessage_def rawData_of_def str_includes_def sublist_code
          merge_item_def Let_def)
  then have a: "map_of (tickerMap st2) ''ETHUSDT'' = None" by simp
  have e: "run decimal [DetailedStatsCalled ''ETHUSDT'', SocketMessage btc_1h_frame,
                        DetailedStatsAnswers ''ETHUSDT'' (StatsBody ''1.1'') (StatsBody ''2.2'')]
             (subscribe 7 connected_service)
           = fetchDetailedStats_resume decimal ''ETHUSDT'' (StatsBody ''1.1'') (StatsBody ''2.2'') st2"
    by (simp add: run_def st2_def)
  note w = fetchDetailedStats_absent_symbol
             [OF a, of decimal "StatsBody ''1.1''" "StatsBody ''2.2''"
                "fetchDetailedStats_resume decimal ''ETHUSDT'' (StatsBody ''1.1'') (StatsBody ''2.2'') st2"]
  from w have 1: "fetchDetailedStats_resume decimal ''ETHUSDT'' (StatsBody ''1.1'') (StatsBody ''2.2'') st2
                  = st2\<lparr>pendingFetches := pendingFetches st2 - {''ETHUSDT''}\<rparr>"
    by blast
  then have 2: "''ETHUSDT'' \<notin> pendingFetches
                  (fetchDetailedStats_resume decimal ''ETHUSDT'' (StatsBody ''1.1'') (StatsBody ''2.2'') st2)"
    by simp
  from a 1 2 show ?thesis unfolding e st2_def[symmetric] by blast
qed

section \<open>Snapshot loader: every origin fails\<close>

lemma snapshot_try_fails_before_loop:
  "fails_before_loop r \<Longrightarrow> snapshot_try pf r st = Inl st"
  by (auto simp: fails_before_loop_def snapshot_try_def split: option.splits prod.splits)

lemma answer_after_failure:
  "snapshot_try pf r st = Inl st1 \<Longrightarrow>
     fetchInitialSnapshot_answer pf r (d # rest) st =
       (case rest of [] \<Rightarrow> notify st1 | next_domain # _ \<Rightarrow> snapshot_requests next_domain st1)"
  by (simp add: fetchInitialSnapshot_answer_def)

lemma snapshot_try_Inl_effects:
  "snapshot_try pf r st = Inl st1 \<Longrightarrow> effects st1 = effects st \<and> subscribers st1 = subscribers st"
  using snapshot_try_shape[of pf r st] by auto

lemma loading_service_eq:
  "loading_service =
     init\<lparr>subscribers := [7], ws := Some CONNECTING,
          effects := [HttpGet ''https://data-api.binance.vision/api/v3/ticker/24hr'',
                      HttpGet ''https://data-api.binance.vision/api/v3/exchangeInfo?permissions=SPOT'',
                      NewWebSocket (Some (''wss://data-stream.binance.vision/stream'' @ STREAMS))]\<rparr>"
  by (simp add: loading_service_def run_def subscribe_def connect_def fetchInitialSnapshot_begin_def
        apiDomains_def snapshot_requests_def connectWebSocket_def init_def emit_def
        clear_pending_timer_def emitStatus_def endpoint_url_def BASE_WS_URLS_def Let_def)

lemma origin_not_ok_fails: "origin_bodies origin_not_ok = None"
  by (simp add: origin_bodies_def origin_not_ok_def)

text \<open>
  Claim C7 says that when every origin fails, the map is left exactly as it was. An
  origin also fails when its ticker array holds a \<^verbatim>\<open>null\<close> element: the loop throws at
  that element, inside the \<^verbatim>\<open>try\<close>, after the elements before it have been written.
  Here the first origin answers with the ticker of \<^verbatim>\<open>BTCUSDT\<close> followed by \<^verbatim>\<open>null\<close>, and
  the other two with a status that is not ok: all three attempts throw, and the map, empty
  before, holds \<^verbatim>\<open>BTCUSDT\<close>; the one notification hands out that map.
\<close>

theorem snapshot_fails_after_partial_load:
  "tickerMap loading_service = []
   \<and> isl (snapshot_try decimal btc_then_null loading_service)
   \<and> origin_bodies origin_not_ok = None
   \<and> tickerMap (run decimal
        (loader_events apiDomains [btc_then_null, origin_not_ok, origin_not_ok]) loading_service)
       = [(''BTCUSDT'', 0)]
   \<and> effects (run decimal
        (loader_events apiDomains [btc_then_null, origin_not_ok, origin_not_ok]) loading_service)
       = effects loading_service
         @ [HttpGet ''https://api.binance.com/api/v3/ticker/24hr'',
            HttpGet ''https://api.binance.com/api/v3/exchangeInfo?permissions=SPOT'',
            HttpGet ''https://api-gcp.binance.com/api/v3/ticker/24hr'',
            HttpGet ''https://api-gcp.binance.com/api/v3/exchangeInfo?permissions=SPOT'',
            DataCallback 7 [(''BTCUSDT'', 0)]]"
proof -
  have t: "snapshot_try decimal btc_then_null loading_service =
             Inl (loading_service
                   \<lparr>tickerMap := [(''BTCUSDT'', 0)], nextAddr := 1,
                    heap := (heap init)(0 :=
                      \<lparr>symbol = ''BTCUSDT'', price = 50000, volume = 1000000000,
                       changePercent1h = None, changePercent4h = None,
                       changePercent24h = 5 / 2\<rparr>)\<rparr>)"
    by (simp add: snapshot_try_def origin_bodies_def btc_then_null_def load_item_def
          loading_service_eq init_def decimal_def digit_of_def Let_def)
  have n: "snapshot_try decimal origin_not_ok st = Inl st" for st :: "rat service"
    by (simp add: snapshot_try_def origin_not_ok_fails)
  have a: "tickerMap loading_service = []"
    by (simp add: loading_service_eq init_def)
  have i: "isl (snapshot_try decimal btc_then_null loading_service)"
    unfolding t by simp
  have r: "run decimal
        (loader_events apiDomains [btc_then_null, origin_not_ok, origin_not_ok]) loading_service
      = notify (snapshot_requests ''https://api-gcp.binance.com''
          (snapshot_requests ''https://api.binance.com''
             (loading_service
                   \<lparr>tickerMap := [(''BTCUSDT'', 0)], nextAddr := 1,
                    heap := (heap init)(0 :=
                      \<lparr>symbol = ''BTCUSDT'', price = 50000, volume = 1000000000,
                       changePercent1h = None, changePercent4h = None,
                       changePercent24h = 5 / 2\<rparr>)\<rparr>)))"
    by (simp add: run_def apiDomains_def fetchInitialSnapshot_answer_def t n)
  have b: "tickerMap (run decimal
        (loader_events apiDomains [btc_then_null, origin_not_ok, origin_not_ok]) loading_service)
       = [(''BTCUSDT'', 0)]"
    unfolding r by simp
  have c: "effects (run decimal
        (loader_events apiDomains [btc_then_null, origin_not_ok, origin_not_ok]) loading_service)
       = effects loading_service
         @ [HttpGet ''https://api.binance.com/api/v3/ticker/24hr'',
            HttpGet ''https://api.binance.com/api/v3/exchangeInfo?permissions=SPOT'',
            HttpGet ''https://api-gcp.binance.com/api/v3/ticker/24hr'',
            HttpGet ''https://api-gcp.binance.com/api/v3/exchangeInfo?permissions=SPOT'',
            DataCallback 7 [(''BTCUSDT'', 0)]]"
    unfolding r
    by (simp add: effects_notify snapshot_requests_def loading_service_eq init_def)
  from a i origin_not_ok_fails b c show ?thesis by blast
qed

text \<open>
  Claim C7, amended. An origin that fails before its loop over the tickers (a rejected
  request, a status that is not ok, a body that is not JSON or not an array, a \<^verbatim>\<open>null\<close>
  entry of the status listing) leaves the map and the records exactly as they were, at
  whatever moment it answers. When the three origins fail in that way, a run of the loader
  with its requests leaves the map and the records as they were and notifies once: each
  data subscriber is called once, with a copy of the unchanged map. However an origin
  fails, the failure of the last origin ends with exactly one notification, which hands
  out the map as it then is, and the failure of an earlier origin sends the requests of
  the next origin and notifies nobody.
\<close>

theorem snapshot_all_origins_fail:
  "(fails_before_loop r \<longrightarrow>
      snapshot_try pf r st = Inl st
      \<and> tickerMap (step pf (SnapshotAnswers (d # rest) r) st) = tickerMap st
      \<and> heap (step pf (SnapshotAnswers (d # rest) r) st) = heap st)
   \<and> (fails_before_loop r1 \<and> fails_before_loop r2 \<and> fails_before_loop r3 \<longrightarrow>
        tickerMap (run pf (loader_events apiDomains [r1, r2, r3]) (fetchInitialSnapshot_begin st))
          = tickerMap st
        \<and> heap (run pf (loader_events apiDomains [r1, r2, r3]) (fetchInitialSnapshot_begin st))
          = heap st
        \<and> effects (run pf (loader_events apiDomains [r1, r2, r3]) (fetchInitialSnapshot_begin st))
          = effects st
            @ concat (map (\<lambda>d. [HttpGet (d @ ''/api/v3/ticker/24hr''),
                                 HttpGet (d @ ''/api/v3/exchangeInfo?permissions=SPOT'')]) apiDomains)
            @ map (\<lambda>cb. DataCallback cb (tickerMap st)) (subscribers st))
   \<and> (isl (snapshot_try pf r st) \<longrightarrow>
        effects (step pf (SnapshotAnswers [d] r) st)
          = effects st
            @ map (\<lambda>cb. DataCallback cb (tickerMap (step pf (SnapshotAnswers [d] r) st)))
                (subscribers st)
        \<and> effects (step pf (SnapshotAnswers (d # d' # rest) r) st)
          = effects st @ [HttpGet (d' @ ''/api/v3/ticker/24hr''),
                         HttpGet (d' @ ''/api/v3/exchangeInfo?permissions=SPOT'')])"
proof -
  have c1: "fails_before_loop r \<longrightarrow>
      snapshot_try pf r st = Inl st
      \<and> tickerMap (step pf (SnapshotAnswers (d # rest) r) st) = tickerMap st
      \<and> heap (step pf (SnapshotAnswers (d # rest) r) st) = heap st"
  proof
    assume "fails_before_loop r"
    then have f: "snapshot_try pf r st = Inl st" by (rule snapshot_try_fails_before_loop)
    from answer_after_failure[OF f, of d rest] f
    show "snapshot_try pf r st = Inl st
      \<and> tickerMap (step pf (SnapshotAnswers (d # rest) r) st) = tickerMap st
      \<and> heap (step pf (SnapshotAnswers (d # rest) r) st) = heap st"
      by (cases rest) simp_all
  qed
  have c2: "fails_before_loop r1 \<and> fails_before_loop r2 \<and> fails_before_loop r3 \<longrightarrow>
        tickerMap (run pf (loader_events apiDomains [r1, r2, r3]) (fetchInitialSnapshot_begin st))
          = tickerMap st
        \<and> heap (run pf (loader_events apiDomains [r1, r2, r3]) (fetchInitialSnapshot_begin st))
          = heap st
        \<and> effects (run pf (loader_events apiDomains [r1, r2, r3]) (fetchInitialSnapshot_begin st))
          = effects st
            @ concat (map (\<lambda>d. [HttpGet (d @ ''/api/v3/ticker/24hr''),
                                 HttpGet (d @ ''/api/v3/exchangeInfo?permissions=SPOT'')]) apiDomains)
            @ map (\<lambda>cb. DataCallback cb (tickerMap st)) (subscribers st)"
  proof
    assume a: "fails_before_loop r1 \<and> fails_before_loop r2 \<and> fails_before_loop r3"
    have f: "snapshot_try pf r1 s = Inl s" "snapshot_try pf r2 s = Inl s"
      "snapshot_try pf r3 s = Inl s" for s :: "'a service"
      using a by (simp_all add: snapshot_try_fails_before_loop)
    have r: "run pf (loader_events apiDomains [r1, r2, r3]) (fetchInitialSnapshot_begin st)
          = notify (snapshot_requests ''https://api-gcp.binance.com''
              (snapshot_requests ''https://api.binance.com''
                 (snapshot_requests ''https://data-api.binance.vision'' st)))"
      by (simp add: run_def apiDomains_def fetchInitialSnapshot_answer_def f
            fetchInitialSnapshot_begin_def)
    show "tickerMap (run pf (loader_events apiDomains [r1, r2, r3]) (fetchInitialSnapshot_begin st))
          = tickerMap st
        \<and> heap (run pf (loader_events apiDomains [r1, r2, r3]) (fetchInitialSnapshot_begin st))
          = heap st
        \<and> effects (run pf (loader_events apiDomains [r1, r2, r3]) (fetchInitialSnapshot_begin st))
          = effects st
            @ concat (map (\<lambda>d. [HttpGet (d @ ''/api/v3/ticker/24hr''),
                                 HttpGet (d @ ''/api/v3/exchangeInfo?permissions=SPOT'')]) apiDomains)
            @ map (\<lambda>cb. DataCallback cb (tickerMap st)) (subscribers st)"
      unfolding r by (simp add: effects_notify snapshot_requests_def apiDomains_def)
  qed
  have c3: "isl (snapshot_try pf r st) \<longrightarrow>
        effects (step pf (SnapshotAnswers [d] r) st)
          = effects st
            @ map (\<lambda>cb. DataCallback cb (tickerMap (step pf (SnapshotAnswers [d] r) st)))
                (subscribers st)
        \<and> effects (step pf (SnapshotAnswers (d # d' # rest) r) st)
          = effects st @ [HttpGet (d' @ ''/api/v3/ticker/24hr''),
                         HttpGet (d' @ ''/api/v3/exchangeInfo?permissions=SPOT'')]"
  proof
    assume "isl (snapshot_try pf r st)"
    then obtain st1 where f: "snapshot_try pf r st = Inl st1" by (auto simp: isl_def)
    from snapshot_try_Inl_effects[OF f] answer_after_failure[OF f, of d "[]"]
      answer_after_failure[OF f, of d "d' # rest"]
    show "effects (step pf (SnapshotAnswers [d] r) st)
          = effects st
            @ map (\<lambda>cb. DataCallback cb (tickerMap (step pf (SnapshotAnswers [d] r) st)))
                (subscribers st)
        \<and> effects (step pf (SnapshotAnswers (d # d' # rest) r) st)
          = effects st @ [HttpGet (d' @ ''/api/v3/ticker/24hr''),
                         HttpGet (d' @ ''/api/v3/exchangeInfo?permissions=SPOT'')]"
      by (simp add: effects_notify snapshot_requests_def)
  qed
  from c1 c2 c3 show ?thesis by blast
qed

theorem snapshot_all_origins_fail_witness:
  "fails_before_loop origin_not_ok
   \<and> tickerMap (run decimal (loader_events apiDomains [origin_not_ok, origin_not_ok, origin_not_ok])
                  (fetchInitialSnapshot_begin (subscribe 7 init))) = []
   \<and> effects (run decimal (loader_events apiDomains [origin_not_ok, origin_not_ok, origin_not_ok])
                (fetchInitialSnapshot_begin (subscribe 7 init))) =
       [HttpGet ''https://data-api.binance.vision/api/v3/ticker/24hr'',
        HttpGet ''https://data-api.binance.vision/api/v3/exchangeInfo?permissions=SPOT'',
        HttpGet ''https://api.binance.com/api/v3/ticker/24hr'',
        HttpGet ''https://api.binance.com/api/v3/exchangeInfo?permissions=SPOT'',
        HttpGet ''https://api-gcp.binance.com/api/v3/ticker/24hr'',
        HttpGet ''https://api-gcp.binance.com/api/v3/exchangeInfo?permissions=SPOT'',
        DataCallback 7 []]
   \<and> isl (snapshot_try decimal btc_then_null loading_service)
   \<and> effects (step decimal (SnapshotAnswers [''https://api-gcp.binance.com''] btc_then_null)
                loading_service)
       = effects loading_service @ [DataCallback 7 [(''BTCUSDT'', 0)]]"
proof -
  have h: "fails_before_loop origin_not_ok"
    by (simp add: fails_before_loop_def origin_not_ok_fails)
  have s: "tickerMap (subscribe 7 (init :: rat service)) = []"
    "effects (subscribe 7 (init :: rat service)) = []"
    "subscribers (subscribe 7 (init :: rat service)) = [7]"
    by (simp_all add: subscribe_def init_def Let_def)
  have t: "snapshot_try decimal btc_then_null loading_service =
             Inl (loading_service
                   \<lparr>tickerMap := [(''BTCUSDT'', 0)], nextAddr := 1,
                    heap := (heap init)(0 :=
                      \<lparr>symbol = ''BTCUSDT'', price = 50000, volume = 1000000000,
                       changePercent1h = None, changePercent4h = None,
                       changePercent24h = 5 / 2\<rparr>)\<rparr>)"
    by (simp add: snapshot_try_def origin_bodies_def btc_then_null_def load_item_def
          loading_service_eq init_def decimal_def digit_of_def Let_def)
  then have i: "isl (snapshot_try decimal btc_then_null loading_service)" by simp
  have m: "tickerMap (step decimal (SnapshotAnswers [''https://api-gcp.binance.com''] btc_then_null)
                loading_service) = [(''BTCUSDT'', 0)]"
    by (simp add: fetchInitialSnapshot_answer_def t)
  have u: "subscribers loading_service = [7]"
    by (simp add: loading_service_eq init_def)
  note w1 = snapshot_all_origins_fail
              [of origin_not_ok decimal "subscribe 7 init" "''d''" "[]"
                  origin_not_ok origin_not_ok origin_not_ok "''e''"]
  note w2 = snapshot_all_origins_fail
              [of btc_then_null decimal loading_service "''https://api-gcp.binance.com''" "[]"
                  origin_not_ok origin_not_ok origin_not_ok "''e''"]
  from w1 h have a: "tickerMap (run decimal
        (loader_events apiDomains [origin_not_ok, origin_not_ok, origin_not_ok])
                  (fetchInitialSnapshot_begin (subscribe 7 init))) = []"
    by (simp add: s)
  from w1 h have b: "effects (run decimal
        (loader_events apiDomains [origin_not_ok, origin_not_ok, origin_not_ok])
                (fetchInitialSnapshot_begin (subscribe 7 init))) =
       [HttpGet ''https://data-api.binance.vision/api/v3/ticker/24hr'',
        HttpGet ''https://data-api.binance.vision/api/v3/exchangeInfo?permissions=SPOT'',
        HttpGet ''https://api.binance.com/api/v3/ticker/24hr'',
        HttpGet ''https://api.binance.com/api/v3/exchangeInfo?permissions=SPOT'',
        HttpGet ''https://api-gcp.binance.com/api/v3/ticker/24hr'',
        HttpGet ''https://api-gcp.binance.com/api/v3/exchangeInfo?permissions=SPOT'',
        DataCallback 7 []]"
    by (simp add: s apiDomains_def)
  from w2 i have c: "effects (step decimal (SnapshotAnswers [''https://api-gcp.binance.com'']
                                btc_then_null) loading_service)
       = effects loading_service @ [DataCallback 7 [(''BTCUSDT'', 0)]]"
    unfolding m by (simp add: u)
  from h a b i c show ?thesis by blast
qed

section \<open>Backfill writes\<close>

text \<open>
  Claim C2. When a backfill fetch for a symbol of the map resumes, the parsed 1-hour
  (4-hour) percentage is written only if the record's \<^verbatim>\<open>changePercent1h\<close>
  (\<^verbatim>\<open>changePercent4h\<close>) is undefined at that moment; a value that is already defined,
  such as one set by a stream message in the meantime, is kept and the fetched one is
  dropped. (Nothing is written when either request was rejected.) The other fields of the
  record stay as they were.
\<close>

theorem fetchDetailedStats_fills_only_undefined:
  assumes "record_of st symb = Some r"
  shows "\<exists>r'. record_of (fetchDetailedStats_resume pf symb res1h res4h st) symb = Some r'
     \<and> changePercent1h r' =
         (case changePercent1h r of
            Some v \<Rightarrow> Some v
          | None \<Rightarrow> (case res1h of
                       StatsBody p \<Rightarrow> if res4h = StatsRejected then None else Some (pf p)
                     | _ \<Rightarrow> None))
     \<and> changePercent4h r' =
         (case changePercent4h r of
            Some v \<Rightarrow> Some v
          | None \<Rightarrow> (case res4h of
                       StatsBody p \<Rightarrow> if res1h = StatsRejected then None else Some (pf p)
                     | _ \<Rightarrow> None))
     \<and> symbol r' = symbol r \<and> price r' = price r \<and> volume r' = volume r
     \<and> changePercent24h r' = changePercent24h r"
proof -
  from assms obtain a where a: "map_of (tickerMap st) symb = Some a" and r: "r = heap st a"
    by (auto simp: record_of_def)
  show ?thesis
    by (cases res1h; cases res4h; cases "changePercent1h (heap st a)";
        cases "changePercent4h (heap st a)")
       (simp_all add: fetchDetailedStats_resume_def record_of_def a r Let_def update_conv')
qed

lemma eth_streamed_record:
  "record_of eth_streamed ''ETHUSDT'' =
     Some \<lparr>symbol = ''ETHUSDT'', price = 3000, volume = 0, changePercent1h = Some (9 / 10),
           changePercent4h = None, changePercent24h = 0\<rparr>"
  by (simp add: eth_streamed_def run_def eth_1h_frame_def onmessage_def rawData_of_def
        str_includes_def sublist_code merge_item_def init_def apply_group_def fresh_record_def
        record_of_def decimal_def digit_of_def Let_def)

theorem fetchDetailedStats_fills_only_undefined_witness:
  "record_of eth_streamed ''ETHUSDT'' =
     Some \<lparr>symbol = ''ETHUSDT'', price = 3000, volume = 0, changePercent1h = Some (9 / 10),
           changePercent4h = None, changePercent24h = 0\<rparr>
   \<and> (\<exists>r'. record_of (fetchDetailedStats_resume decimal ''ETHUSDT'' (StatsBody ''1.1'')
                (StatsBody ''2.2'') eth_streamed) ''ETHUSDT'' = Some r'
          \<and> changePercent1h r' = Some (9 / 10) \<and> changePercent4h r' = Some (11 / 5))"
proof -
  note h = eth_streamed_record
  have d: "decimal ''2.2'' = 11 / 5" by (simp add: decimal_def digit_of_def)
  from fetchDetailedStats_fills_only_undefined
         [OF h, of decimal "StatsBody ''1.1''" "StatsBody ''2.2''"] h d
  show ?thesis by auto
qed

section \<open>The live map and its records\<close>

lemma refs_ok_init: "refs_ok init"
  by (simp add: refs_ok_def init_def)

lemma refs_ok_map_of_lt: "refs_ok st \<Longrightarrow> map_of (tickerMap st) k = Some a \<Longrightarrow> a < nextAddr st"
proof -
  assume w: "refs_ok st" and m: "map_of (tickerMap st) k = Some a"
  from m have "(k, a) \<in> set (tickerMap st)" by (rule map_of_SomeD)
  then have "a \<in> set (map snd (tickerMap st))" by force
  with w show ?thesis unfolding refs_ok_def by blast
qed

lemma distinct_snd_inj:
  "distinct (map snd al) \<Longrightarrow> (k, a) \<in> set al \<Longrightarrow> (k', a) \<in> set al \<Longrightarrow> k = k'"
proof -
  assume d: "distinct (map snd al)" and 1: "(k, a) \<in> set al" and 2: "(k', a) \<in> set al"
  from d have "inj_on snd (set al)" by (simp add: distinct_map)
  from inj_onD[OF this _ 1 2] show ?thesis by simp
qed

lemma refs_ok_map_of_inj:
  "refs_ok st \<Longrightarrow> map_of (tickerMap st) k = Some a \<Longrightarrow> map_of (tickerMap st) k' = Some a \<Longrightarrow> k = k'"
  by (meson distinct_snd_inj map_of_SomeD refs_ok_def)

lemma snd_update_subset: "set (map snd (AList.update k v al)) \<subseteq> insert v (set (map snd al))"
  by (induction al) auto

lemma distinct_snd_update:
  "distinct (map snd al) \<Longrightarrow> v \<notin> set (map snd al) \<Longrightarrow> distinct (map snd (AList.update k v al))"
proof (induction al)
  case Nil
  then show ?case by simp
next
  case (Cons p al)
  obtain k' v' where p: "p = (k', v')" by (cases p)
  show ?case
  proof (cases "k' = k")
    case True
    with Cons.prems p show ?thesis by auto
  next
    case False
    have "v' \<notin> set (map snd (AList.update k v al))"
      using snd_update_subset[of k v al] Cons.prems p by auto
    with False Cons p show ?thesis by auto
  qed
qed

lemma refs_ok_fresh_update:
  assumes "refs_ok st"
  shows "refs_ok (st\<lparr>heap := h, nextAddr := nextAddr st + 1,
              tickerMap := AList.update k (nextAddr st) (tickerMap st)\<rparr>)"
proof -
  have fresh: "nextAddr st \<notin> set (map snd (tickerMap st))"
    using assms by (auto simp: refs_ok_def)
  have d1: "distinct (map fst (AList.update k (nextAddr st) (tickerMap st)))"
    using assms by (simp add: refs_ok_def distinct_update)
  have d2: "distinct (map snd (AList.update k (nextAddr st) (tickerMap st)))"
    using assms fresh by (simp add: refs_ok_def distinct_snd_update)
  have b: "\<forall>a \<in> set (map snd (AList.update k (nextAddr st) (tickerMap st))). a < nextAddr st + 1"
  proof
    fix a assume "a \<in> set (map snd (AList.update k (nextAddr st) (tickerMap st)))"
    with snd_update_subset[of k "nextAddr st" "tickerMap st"]
    have "a = nextAddr st \<or> a \<in> set (map snd (tickerMap st))" by auto
    with assms show "a < nextAddr st + 1" by (auto simp: refs_ok_def)
  qed
  from d1 d2 b show ?thesis by (simp add: refs_ok_def)
qed

lemma refs_ok_merge_item: "refs_ok st \<Longrightarrow> refs_ok (merge_item pf a b c item st)"
proof (cases "map_of (tickerMap st) (item_s item)")
  case None
  assume "refs_ok st"
  from refs_ok_fresh_update[OF this] None show ?thesis
    by (simp add: merge_item_def Let_def)
next
  case (Some x)
  assume "refs_ok st"
  with Some show ?thesis
    by (simp add: merge_item_def Let_def update_triv refs_ok_def)
qed

lemma refs_ok_fold_merge_item: "refs_ok st \<Longrightarrow> refs_ok (fold (merge_item pf a b c) items st)"
  by (induction items arbitrary: st) (simp_all add: refs_ok_merge_item)

lemma refs_ok_load_item: "refs_ok st \<Longrightarrow> refs_ok (load_item pf ts item st)"
  using refs_ok_fresh_update[of st] by (simp add: load_item_def Let_def)

lemma refs_ok_fold_load_item: "refs_ok st \<Longrightarrow> refs_ok (fold (load_item pf ts) items st)"
  by (induction items arbitrary: st) (simp_all add: refs_ok_load_item)

lemma refs_ok_cong:
  "tickerMap st' = tickerMap st \<Longrightarrow> nextAddr st' = nextAddr st \<Longrightarrow> refs_ok st' = refs_ok st"
  by (simp add: refs_ok_def)

text \<open>The record a symbol has before an update: the one in the map, or a fresh one.\<close>

lemma record_of_merge_item:
  assumes "refs_ok st"
  shows "record_of (merge_item pf a b c item st) k =
           (if k = item_s item
            then Some (apply_group pf a b c item
                   (case record_of st k of Some r \<Rightarrow> r | None \<Rightarrow> fresh_record k))
            else record_of st k)"
proof (cases "map_of (tickerMap st) (item_s item)")
  case None
  show ?thesis
  proof (cases "k = item_s item")
    case True
    with None show ?thesis
      by (simp add: merge_item_def Let_def record_of_def update_conv')
  next
    case False
    have "map_of (tickerMap st) k \<noteq> Some (nextAddr st)"
      using refs_ok_map_of_lt[OF assms, of k "nextAddr st"] by auto
    with None False show ?thesis
      by (cases "map_of (tickerMap st) k")
         (auto simp: merge_item_def Let_def record_of_def update_conv')
  qed
next
  case (Some x)
  show ?thesis
  proof (cases "k = item_s item")
    case True
    with Some show ?thesis
      by (simp add: merge_item_def Let_def record_of_def update_conv')
  next
    case False
    have "map_of (tickerMap st) k \<noteq> Some x"
      using refs_ok_map_of_inj[OF assms _ Some, of k] False by auto
    with Some False show ?thesis
      by (cases "map_of (tickerMap st) k")
         (auto simp: merge_item_def Let_def record_of_def update_conv')
  qed
qed

lemma apply_group_twice:
  "apply_group pf a b c y (apply_group pf a b c x r) = apply_group pf a b c y r"
  by (simp add: apply_group_def)

lemma fold_apply_group_last:
  "ups \<noteq> [] \<Longrightarrow> fold (apply_group pf a b c) ups r = apply_group pf a b c (last ups) r"
proof (induction ups arbitrary: r rule: rev_induct)
  case Nil
  then show ?case by simp
next
  case (snoc x xs)
  show ?case
  proof (cases "xs = []")
    case True
    then show ?thesis by simp
  next
    case False
    with snoc.IH[of r] show ?thesis by (simp add: apply_group_twice)
  qed
qed

lemma record_of_fold_merge_item:
  assumes "refs_ok st"
  shows "record_of (fold (merge_item pf a b c) items st) k =
           (if filter (\<lambda>i. item_s i = k) items = [] then record_of st k
            else Some (fold (apply_group pf a b c) (filter (\<lambda>i. item_s i = k) items)
                    (case record_of st k of Some r \<Rightarrow> r | None \<Rightarrow> fresh_record k)))"
  using assms
proof (induction items arbitrary: st)
  case Nil
  then show ?case by simp
next
  case (Cons i items)
  note w = refs_ok_merge_item[OF Cons.prems, of pf a b c i]
  show ?case
    using Cons.IH[OF w] by (simp add: record_of_merge_item[OF Cons.prems])
qed

lemma record_of_notify [simp]: "record_of (notify st) k = record_of st k"
  by (simp add: record_of_def)

section \<open>What a stream message changes\<close>





section \<open>Maps handed to subscribers\<close>


lemma load_item_heap:
  "a < nextAddr st \<Longrightarrow> heap (load_item pf ts item st) a = heap st a"
  "nextAddr st \<le> nextAddr (load_item pf ts item st)"
  by (simp_all add: load_item_def Let_def)


lemma fold_load_item_nextAddr: "nextAddr st \<le> nextAddr (fold (load_item pf ts) items st)"
proof (induction items arbitrary: st)
  case Nil
  show ?case by simp
next
  case (Cons i items)
  from Cons.IH[of "load_item pf ts i st"] load_item_heap(2)[of st pf ts i]
  show ?case by simp
qed

lemma fetchInitialSnapshot_answer_nextAddr:
  "nextAddr st \<le> nextAddr (fetchInitialSnapshot_answer pf r ds st)"
  using fetchInitialSnapshot_answer_shape[of pf r ds st] fold_load_item_nextAddr[of st pf]
  by auto



lemma merge_item_nextAddr: "nextAddr st \<le> nextAddr (merge_item pf g1 g2 g3 item st)"
  by (simp add: merge_item_def Let_def split: option.splits)




lemma fetchDetailedStats_resume_heap:
  "map_of (tickerMap st) symb \<noteq> Some a
     \<Longrightarrow> heap (fetchDetailedStats_resume pf symb res1h res4h st) a = heap st a"
  by (auto simp: fetchDetailedStats_resume_def Let_def split: option.splits stats_response.splits)

lemma connectWebSocket_heap [simp]: "heap (connectWebSocket throws st) = heap st"
  by (simp add: connectWebSocket_def Let_def)













section \<open>Invariants of the service\<close>

lemma fold_merge_item_nextAddr: "nextAddr st \<le> nextAddr (fold (merge_item pf a b c) items st)"
proof (induction items arbitrary: st)
  case Nil
  show ?case by simp
next
  case (Cons i items)
  from Cons.IH[of "merge_item pf a b c i st"] merge_item_nextAddr[of st pf a b c i]
  show ?case by simp
qed

lemma hands_out_notify:
  "nextAddr st \<le> nextAddr st1 \<Longrightarrow> effects st1 = effects st
     \<Longrightarrow> hands_out_live_map st (notify st1)"
  by (auto simp: hands_out_live_map_def effects_notify)

lemma hands_out_refl: "hands_out_live_map st st"
  by (simp add: hands_out_live_map_def)

lemma refs_ok_notify [simp]: "refs_ok (notify st) = refs_ok st"
  by (simp add: refs_ok_def)

lemma refs_ok_snapshot_requests [simp]: "refs_ok (snapshot_requests d st) = refs_ok st"
  by (simp add: refs_ok_def)

lemma hands_out_requests:
  "nextAddr st \<le> nextAddr st1 \<Longrightarrow> effects st1 = effects st
     \<Longrightarrow> hands_out_live_map st (snapshot_requests d st1)"
  by (auto simp: hands_out_live_map_def snapshot_requests_def)

lemma hands_out_silent:
  "nextAddr st \<le> nextAddr st1 \<Longrightarrow> effects st1 = effects st \<Longrightarrow> hands_out_live_map st st1"
  by (auto simp: hands_out_live_map_def)

lemma fetchInitialSnapshot_answer_inv:
  "(refs_ok st \<longrightarrow> refs_ok (fetchInitialSnapshot_answer pf r ds st))
   \<and> hands_out_live_map st (fetchInitialSnapshot_answer pf r ds st)"
proof -
  from fetchInitialSnapshot_answer_shape[of pf r ds st] obtain ts items' where
    sh: "fetchInitialSnapshot_answer pf r ds st = fold (load_item pf ts) items' st
    \<or> fetchInitialSnapshot_answer pf r ds st = notify (fold (load_item pf ts) items' st)
    \<or> (\<exists>d. fetchInitialSnapshot_answer pf r ds st
              = snapshot_requests d (fold (load_item pf ts) items' st))"
    by blast
  let ?st1 = "fold (load_item pf ts) items' st"
  have w: "refs_ok st \<longrightarrow> refs_ok ?st1" by (simp add: refs_ok_fold_load_item)
  have n: "nextAddr st \<le> nextAddr ?st1" by (rule fold_load_item_nextAddr)
  have e: "effects ?st1 = effects st" by simp
  from sh w hands_out_silent[OF n e] hands_out_notify[OF n e] hands_out_requests[OF n e]
  show ?thesis by auto
qed

lemma connectWebSocket_inv:
  "tickerMap (connectWebSocket throws st) = tickerMap st"
  "nextAddr (connectWebSocket throws st) = nextAddr st"
  "x \<in> set (effects (connectWebSocket throws st)) \<Longrightarrow>
     x \<in> set (effects st) \<or> (case x of DataCallback cb m \<Rightarrow> False | _ \<Rightarrow> True)"
  by (auto simp: connectWebSocket_def Let_def effects_scheduleReconnect effects_emitStatus
        clear_pending_timer_def split: option.splits if_splits)

lemma step_inv:
  "(refs_ok st \<longrightarrow> refs_ok (step pf e st)) \<and> hands_out_live_map st (step pf e st)"
proof (cases e)
  case (Connect throws)
  have "hands_out_live_map st (connect throws st)"
    unfolding hands_out_live_map_def
  proof (intro conjI ballI)
    show "nextAddr st \<le> nextAddr (connect throws st)"
      by (simp add: connect_def connectWebSocket_inv)
  next
    fix x assume "x \<in> set (effects (connect throws st))"
    from connectWebSocket_inv(3)[OF this[unfolded connect_def]]
    show "x \<in> set (effects st) \<or>
          (case x of DataCallback cb m \<Rightarrow> m = tickerMap (connect throws st) | _ \<Rightarrow> True)"
      by (auto simp: fetchInitialSnapshot_begin_def apiDomains_def snapshot_requests_def
            split: effect.splits)
  qed
  moreover have "refs_ok (connect throws st) = refs_ok st"
    by (rule refs_ok_cong) (simp_all add: connect_def connectWebSocket_inv)
  ultimately show ?thesis using Connect by simp
next
  case Disconnect
  have "refs_ok (disconnect st) = refs_ok st"
    by (rule refs_ok_cong) (simp_all add: disconnect_def Let_def split: option.splits)
  moreover have "hands_out_live_map st (disconnect st)"
    by (auto simp: hands_out_live_map_def disconnect_def Let_def clear_pending_timer_def
          split: option.splits)
  ultimately show ?thesis using Disconnect by simp
next
  case (SnapshotAnswers ds r)
  with fetchInitialSnapshot_answer_inv[of st pf r ds] show ?thesis by simp
next
  case (DetailedStatsCalled symb)
  have "refs_ok (snd (fetchDetailedStats_begin symb st)) = refs_ok st"
    by (rule refs_ok_cong) (simp_all add: fetchDetailedStats_begin_def)
  moreover have "hands_out_live_map st (snd (fetchDetailedStats_begin symb st))"
    by (auto simp: hands_out_live_map_def fetchDetailedStats_begin_def)
  ultimately show ?thesis using DetailedStatsCalled by simp
next
  case (DetailedStatsAnswers symb r1 r4)
  have "refs_ok (fetchDetailedStats_resume pf symb r1 r4 st) = refs_ok st"
    by (rule refs_ok_cong)
       (auto simp: fetchDetailedStats_resume_def Let_def update_triv
          split: option.splits stats_response.splits)
  moreover have "hands_out_live_map st (fetchDetailedStats_resume pf symb r1 r4 st)"
    by (auto simp: hands_out_live_map_def fetchDetailedStats_resume_def Let_def update_triv
          effects_notify split: option.splits stats_response.splits)
  ultimately show ?thesis using DetailedStatsAnswers by simp
next
  case (TimerFires throws)
  have "refs_ok (connectWebSocket throws st) = refs_ok st"
    by (rule refs_ok_cong) (simp_all add: connectWebSocket_inv)
  moreover have "hands_out_live_map st (connectWebSocket throws st)"
    unfolding hands_out_live_map_def
  proof (intro conjI ballI)
    show "nextAddr st \<le> nextAddr (connectWebSocket throws st)"
      by (simp add: connectWebSocket_inv)
  next
    fix x assume "x \<in> set (effects (connectWebSocket throws st))"
    from connectWebSocket_inv(3)[OF this]
    show "x \<in> set (effects st) \<or>
          (case x of DataCallback cb m \<Rightarrow> m = tickerMap (connectWebSocket throws st) | _ \<Rightarrow> True)"
      by (auto split: effect.splits)
  qed
  ultimately show ?thesis using TimerFires by simp
next
  case SocketOpens
  have "refs_ok (onopen (set_readyState OPEN st)) = refs_ok st"
    by (rule refs_ok_cong) (simp_all add: onopen_def)
  moreover have "hands_out_live_map st (onopen (set_readyState OPEN st))"
    by (auto simp: hands_out_live_map_def onopen_def effects_emitStatus)
  ultimately show ?thesis using SocketOpens by simp
next
  case (SocketMessage fr)
  have "refs_ok st \<longrightarrow> refs_ok (onmessage pf fr st)"
    by (simp add: onmessage_def Let_def refs_ok_fold_merge_item split: frame.splits option.splits)
  moreover have "hands_out_live_map st (onmessage pf fr st)"
    by (simp add: onmessage_def Let_def hands_out_notify fold_merge_item_nextAddr
          hands_out_refl split: frame.splits option.splits)
  ultimately show ?thesis using SocketMessage by simp
next
  case SocketCloses
  have "refs_ok (onclose (set_readyState CLOSED st)) = refs_ok st"
    by (rule refs_ok_cong) (simp_all add: onclose_def)
  moreover have "hands_out_live_map st (onclose (set_readyState CLOSED st))"
    by (auto simp: hands_out_live_map_def onclose_def effects_emitStatus
          effects_scheduleReconnect split: option.splits)
  ultimately show ?thesis using SocketCloses by simp
next
  case (SocketErrors r)
  have "refs_ok (onerror (set_readyState r st)) = refs_ok st"
    by (rule refs_ok_cong) (simp_all add: onerror_def set_readyState_def split: option.splits)
  moreover have "hands_out_live_map st (onerror (set_readyState r st))"
    by (auto simp: hands_out_live_map_def onerror_def set_readyState_def split: option.splits)
  ultimately show ?thesis using SocketErrors by simp
next
  case (Subscribe cb)
  have "refs_ok (subscribe cb st) = refs_ok st"
    by (rule refs_ok_cong) (simp_all add: subscribe_def Let_def)
  moreover have "hands_out_live_map st (subscribe cb st)"
    by (auto simp: hands_out_live_map_def subscribe_def Let_def)
  ultimately show ?thesis using Subscribe by simp
next
  case (Unsubscribe cb)
  have "refs_ok (unsubscribe cb st) = refs_ok st"
    by (rule refs_ok_cong) (simp_all add: unsubscribe_def)
  moreover have "hands_out_live_map st (unsubscribe cb st)"
    by (auto simp: hands_out_live_map_def unsubscribe_def)
  ultimately show ?thesis using Unsubscribe by simp
next
  case (SubscribeStatus cb)
  have "refs_ok (subscribeStatus cb st) = refs_ok st"
    by (rule refs_ok_cong) (simp_all add: subscribeStatus_def)
  moreover have "hands_out_live_map st (subscribeStatus cb st)"
    by (auto simp: hands_out_live_map_def subscribeStatus_def effects_emitStatus)
  ultimately show ?thesis using SubscribeStatus by simp
next
  case (UnsubscribeStatus cb)
  have "refs_ok (unsubscribeStatus cb st) = refs_ok st"
    by (rule refs_ok_cong) (simp_all add: unsubscribeStatus_def)
  moreover have "hands_out_live_map st (unsubscribeStatus cb st)"
    by (auto simp: hands_out_live_map_def unsubscribeStatus_def)
  ultimately show ?thesis using UnsubscribeStatus by simp
qed

lemma refs_ok_step: "refs_ok st \<Longrightarrow> refs_ok (step pf e st)"
  using step_inv[of st pf e] by blast

lemma delivered_allocated_step:
  assumes "refs_ok st" and "delivered_allocated st"
  shows "delivered_allocated (step pf e st)"
  unfolding delivered_allocated_def
proof
  fix x assume x: "x \<in> set (effects (step pf e st))"
  from step_inv[of st pf e] have h: "hands_out_live_map st (step pf e st)" by blast
  have w: "refs_ok (step pf e st)" using assms(1) by (rule refs_ok_step)
  show "case x of DataCallback cb m \<Rightarrow> \<forall>a \<in> set (map snd m). a < nextAddr (step pf e st)
        | _ \<Rightarrow> True"
  proof (cases x)
    case (DataCallback cb m)
    from h x DataCallback
    consider "DataCallback cb m \<in> set (effects st)" | "m = tickerMap (step pf e st)"
      unfolding hands_out_live_map_def by fastforce
    then have "\<forall>a \<in> set (map snd m). a < nextAddr (step pf e st)"
    proof cases
      case 1
      with assms(2) have "\<forall>a \<in> set (map snd m). a < nextAddr st"
        unfolding delivered_allocated_def by fastforce
      moreover from h have "nextAddr st \<le> nextAddr (step pf e st)"
        by (simp add: hands_out_live_map_def)
      ultimately show ?thesis by fastforce
    next
      case 2
      with w show ?thesis by (simp add: refs_ok_def)
    qed
    with DataCallback show ?thesis by simp
  qed simp_all
qed

lemma reachable_invariants: "refs_ok (run pf evs init) \<and> delivered_allocated (run pf evs init)"
proof (induction evs rule: rev_induct)
  case Nil
  have "delivered_allocated (init :: 'a service)"
    by (simp add: delivered_allocated_def init_def)
  with refs_ok_init show ?case by (simp add: run_def)
next
  case (snoc e evs)
  then show ?case by (simp add: run_snoc refs_ok_step delivered_allocated_step)
qed

section \<open>Defined change fields\<close>

lemma onmessage_keeps_defined:
  assumes "refs_ok st" and "record_of st k = Some r"
  shows "\<exists>r'. record_of (onmessage pf fr st) k = Some r'
           \<and> (changePercent1h r \<noteq> None \<longrightarrow> changePercent1h r' \<noteq> None)
           \<and> (changePercent4h r \<noteq> None \<longrightarrow> changePercent4h r' \<noteq> None)"
proof (cases fr)
  case Unparsable
  with assms(2) show ?thesis by (simp add: onmessage_def)
next
  case (Envelope streamName data)
  show ?thesis
  proof (cases data)
    case None
    with Envelope assms(2) show ?thesis by (simp add: onmessage_def)
  next
    case (Some d)
    show ?thesis
    proof (cases "filter (\<lambda>i. item_s i = k) (rawData_of d) = []")
      case True
      with Envelope Some assms(2) show ?thesis
        by (simp add: onmessage_def Let_def record_of_fold_merge_item[OF assms(1)])
    next
      case False
      with Envelope Some assms(2) show ?thesis
        by (auto simp: onmessage_def Let_def record_of_fold_merge_item[OF assms(1)]
              fold_apply_group_last apply_group_def)
    qed
  qed
qed

lemma backfill_keeps_defined:
  assumes "refs_ok st" and "record_of st k = Some r"
  shows "\<exists>r'. record_of (fetchDetailedStats_resume pf symb res1h res4h st) k = Some r'
           \<and> (changePercent1h r \<noteq> None \<longrightarrow> changePercent1h r' \<noteq> None)
           \<and> (changePercent4h r \<noteq> None \<longrightarrow> changePercent4h r' \<noteq> None)"
proof -
  from assms(2) obtain a where a: "map_of (tickerMap st) k = Some a" and r: "r = heap st a"
    by (auto simp: record_of_def)
  have m: "map_of (tickerMap (fetchDetailedStats_resume pf symb res1h res4h st)) k = Some a"
    using a
    by (auto simp: fetchDetailedStats_resume_def Let_def update_triv
          split: option.splits stats_response.splits)
  show ?thesis
  proof (cases "k = symb")
    case True
    with a show ?thesis
      unfolding record_of_def m r
      by (cases res1h; cases res4h; cases "changePercent1h (heap st a)";
          cases "changePercent4h (heap st a)")
         (simp_all add: fetchDetailedStats_resume_def Let_def)
  next
    case False
    have "map_of (tickerMap st) symb \<noteq> Some a"
      using refs_ok_map_of_inj[OF assms(1) a, of symb] False by auto
    from fetchDetailedStats_resume_heap[OF this] show ?thesis
      unfolding record_of_def m r by simp
  qed
qed

lemma record_of_cong:
  "tickerMap st' = tickerMap st \<Longrightarrow> heap st' = heap st \<Longrightarrow> record_of st' k = record_of st k"
  by (simp add: record_of_def)

lemma step_keeps_defined:
  assumes "refs_ok st" and "record_of st k = Some r" and "\<forall>ds resp. e \<noteq> SnapshotAnswers ds resp"
  shows "\<exists>r'. record_of (step pf e st) k = Some r'
           \<and> (changePercent1h r \<noteq> None \<longrightarrow> changePercent1h r' \<noteq> None)
           \<and> (changePercent4h r \<noteq> None \<longrightarrow> changePercent4h r' \<noteq> None)"
proof (cases "(\<exists>fr. e = SocketMessage fr) \<or> (\<exists>symb r1 r4. e = DetailedStatsAnswers symb r1 r4)")
  case True
  then show ?thesis
    using onmessage_keeps_defined[OF assms(1,2)] backfill_keeps_defined[OF assms(1,2)]
    by auto
next
  case False
  have "record_of (step pf e st) k = record_of st k"
    using False assms(3)
    by (cases e)
       (simp_all add: record_of_def connect_def connectWebSocket_inv disconnect_def
          fetchDetailedStats_begin_def onopen_def onclose_def onerror_def subscribe_def
          unsubscribe_def subscribeStatus_def unsubscribeStatus_def set_readyState_def Let_def
          split: option.splits)
  with assms(2) show ?thesis by simp
qed

text \<open>
  Claim C1: once \<^verbatim>\<open>changePercent1h\<close> or \<^verbatim>\<open>changePercent4h\<close> of a symbol is defined, no
  later operation makes it undefined again, and in particular not a snapshot load that
  completes after a stream message. Stream messages and backfill answers keep a defined
  field defined (\<open>step_keeps_defined\<close>), but the snapshot loader does not look at the
  record in the map: in the run below \<^verbatim>\<open>connect()\<close> starts the snapshot and the socket, a
  1-hour message sets the 1-hour change of \<^verbatim>\<open>BTCUSDT\<close> to 0.4, and the snapshot answer
  that arrives next replaces the record by one whose 1-hour change is undefined.
\<close>

theorem snapshot_after_stream_resets_change:
  "map_option changePercent1h
     (record_of (run decimal [Connect False, SocketOpens, SocketMessage btc_1h_frame] init)
        ''BTCUSDT'') = Some (Some (2 / 5))
   \<and> map_option changePercent1h
       (record_of (run decimal [Connect False, SocketOpens, SocketMessage btc_1h_frame,
                                SnapshotAnswers apiDomains btc_snapshot] init)
          ''BTCUSDT'') = Some None"
proof -
  define st1 where "st1 = onmessage decimal btc_1h_frame connected_service"
  define st2 where "st2 = fetchInitialSnapshot_answer decimal btc_snapshot apiDomains st1"
  have s: "run decimal [Connect False, SocketOpens, SocketMessage btc_1h_frame] init = st1"
    "run decimal [Connect False, SocketOpens, SocketMessage btc_1h_frame,
                  SnapshotAnswers apiDomains btc_snapshot] init = st2"
    by (simp_all add: run_def connected_service_def st1_def st2_def)
  have e1: "st1 = connected_service
       \<lparr>tickerMap := [(''BTCUSDT'', 0)], nextAddr := 1,
        heap := (heap init)(0 :=
          \<lparr>symbol = ''BTCUSDT'', price = 50010, volume = 0, changePercent1h = Some (2 / 5),
           changePercent4h = None, changePercent24h = 0\<rparr>)\<rparr>"
    unfolding st1_def
    by (simp add: connected_service_eq init_def btc_1h_frame_def onmessage_def rawData_of_def
          str_includes_def sublist_code merge_item_def apply_group_def fresh_record_def
          decimal_def digit_of_def notify_def emit_def Let_def)
  have r1: "map_option changePercent1h (record_of st1 ''BTCUSDT'') = Some (Some (2 / 5))"
    unfolding e1 by (simp add: record_of_def)
  have r2: "map_option changePercent1h (record_of st2 ''BTCUSDT'') = Some None"
    unfolding st2_def e1
    by (simp add: record_of_def apiDomains_def fetchInitialSnapshot_answer_def snapshot_try_def
          origin_bodies_def btc_snapshot_def load_item_def Let_def)
  from r1 r2 show ?thesis unfolding s by simp
qed

section \<open>The endpoint index stays in range\<close>

lemma connectWebSocket_endpointIndex:
  "endpointIndex st < length BASE_WS_URLS
     \<Longrightarrow> endpointIndex (connectWebSocket throws st) < length BASE_WS_URLS"
  by (simp add: connectWebSocket_def Let_def length_BASE_WS_URLS)

text \<open>
  \<^verbatim>\<open>BASE_WS_URLS[this.endpointIndex]\<close> is never \<^verbatim>\<open>undefined\<close>: the index starts at 0 and
  every event keeps it below the length of the list.
\<close>

lemma endpointIndex_step:
  assumes "endpointIndex st < length BASE_WS_URLS"
  shows "endpointIndex (step pf e st) < length BASE_WS_URLS"
proof (cases e)
  case (Connect throws)
  have "endpointIndex (fetchInitialSnapshot_begin st) < length BASE_WS_URLS"
    using assms by simp
  from connectWebSocket_endpointIndex[OF this] Connect show ?thesis by (simp add: connect_def)
next
  case (TimerFires throws)
  with connectWebSocket_endpointIndex[OF assms] show ?thesis by simp
next
  case (SnapshotAnswers ds r)
  with assms show ?thesis by simp
next
  case (DetailedStatsAnswers symb r1 r4)
  with assms show ?thesis
    by (simp add: fetchDetailedStats_resume_def Let_def split: option.splits stats_response.splits)
next
  case (SocketMessage fr)
  with assms show ?thesis
    by (simp add: onmessage_def Let_def split: frame.splits option.splits)
next
  case SocketCloses
  then show ?thesis by (simp add: onclose_def length_BASE_WS_URLS)
qed (use assms in \<open>simp_all add: disconnect_def fetchDetailedStats_begin_def onopen_def
       onerror_def subscribe_def unsubscribe_def subscribeStatus_def unsubscribeStatus_def
       set_readyState_def Let_def split: option.splits\<close>)

lemma endpointIndex_reachable: "endpointIndex (run pf evs init) < length BASE_WS_URLS"
proof (induction evs rule: rev_induct)
  case Nil
  show ?case by (simp add: run_def init_def length_BASE_WS_URLS)
next
  case (snoc e evs)
  then show ?case by (simp add: run_snoc endpointIndex_step)
qed

end
